theory Spec2Isabelle
  imports Complex_Main "HOL-Library.Sublist"
begin

section \<open>ICNS generator: the core module \<^verbatim>\<open>src/index.js\<close>\<close>

text \<open>
  The module turns one source image into a macOS iconset: a fixed table of icon sizes
  (\<^verbatim>\<open>sizes\<close>, \<^verbatim>\<open>allSizes\<close>), a renderer that builds a request for the image library
  (\<^verbatim>\<open>createRoundedImage\<close>), the assembly of the staging directory (\<^verbatim>\<open>generateIconset\<close>)
  and the packaging and plain export (\<^verbatim>\<open>generateIcns\<close>).

  JavaScript numbers are IEEE 754 doubles. A number that holds an edge length or a pixel
  count is modelled as an \<^typ>\<open>int\<close>, the padding percent and the corner radius as the
  \<^typ>\<open>real\<close> value of the double, and every operation of the source on them rounds its
  result to the nearest double (section Numbers). Strings are \<^typ>\<open>string\<close> and are taken
  to be ASCII. Console output is not modelled.
\<close>

subsection \<open>Numbers in template literals\<close>

definition digit_char :: "nat \<Rightarrow> char" where
  "digit_char d = ''0123456789'' ! d"

fun nat_string :: "nat \<Rightarrow> string" where
  "nat_string n = (if n < 10 then [digit_char n] else nat_string (n div 10) @ [digit_char (n mod 10)])"

declare nat_string.simps [simp del]

text \<open>\<^verbatim>\<open>`${size}`\<close> for a number that holds an integer: its decimal digits, with a sign.\<close>

definition int_string :: "int \<Rightarrow> string" where
  "int_string i = (if i < 0 then CHR ''-'' # nat_string (nat (- i)) else nat_string (nat i))"

subsection \<open>The size table\<close>

record IconSize =
  name :: string
  edge :: int

text \<open>\<^verbatim>\<open>const sizes = [16, 32, 64, 128, 256, 512, 1024]\<close>\<close>

definition sizes :: "int list" where
  "sizes = [16, 32, 64, 128, 256, 512, 1024]"

text \<open>
  The arrow function given to \<^verbatim>\<open>flatMap\<close>: the standard-density entry, then the
  double-density entry. The field \<^verbatim>\<open>size\<close> of the source is \<^const>\<open>edge\<close> here.
\<close>

definition sizePair :: "int \<Rightarrow> IconSize list" where
  "sizePair s =
     [\<lparr>name = ''icon_'' @ int_string s @ ''x'' @ int_string s @ ''.png'', edge = s\<rparr>,
      \<lparr>name = ''icon_'' @ int_string s @ ''x'' @ int_string s @ ''@2x.png'', edge = s * 2\<rparr>]"

definition flatMap :: "('a \<Rightarrow> 'b list) \<Rightarrow> 'a list \<Rightarrow> 'b list" where
  "flatMap f xs = concat (map f xs)"

definition allSizes :: "IconSize list" where
  "allSizes = flatMap sizePair sizes"

subsection \<open>Numbers\<close>

text \<open>
  A finite double is a real of the form \<open>m * 2 ^ k\<close> with an integer \<open>m\<close> of at most 53 bits
  and \<open>- 1074 \<le> k\<close>. \<open>double x\<close> is the double nearest to the real \<open>x\<close>, a tie going to the
  even \<open>m\<close>: the value of a numeric literal, of an argument written by a caller, and of the
  result of each arithmetic operation. NaN and the infinities are not modelled: the model
  covers arguments that are finite numbers, and operations whose results stay below
  \<open>2 ^ 1024\<close> in magnitude, where JavaScript has no infinity yet.
\<close>

text \<open>The number of binary digits of a natural number.\<close>

fun bit_length :: "nat \<Rightarrow> nat" where
  "bit_length n = (if n = 0 then 0 else Suc (bit_length (n div 2)))"

declare bit_length.simps [simp del]

text \<open>For \<open>0 < x\<close>, the exponent \<open>e\<close> with \<open>2 ^ e \<le> x < 2 ^ (e + 1)\<close>.\<close>

definition ilog2 :: "real \<Rightarrow> int" where
  "ilog2 x = (if 1 \<le> x then int (bit_length (nat \<lfloor>x\<rfloor>)) - 1
              else - int (bit_length (nat (\<lceil>1 / x\<rceil> - 1))))"

definition pow2 :: "int \<Rightarrow> real" where
  "pow2 k = (if 0 \<le> k then 2 ^ nat k else 1 / 2 ^ nat (- k))"

text \<open>The integer nearest to \<open>x\<close>, a tie going to the even one.\<close>

definition round_half_even :: "real \<Rightarrow> int" where
  "round_half_even x =
     (let f = \<lfloor>x\<rfloor>; d = x - of_int f
      in if d < 1 / 2 then f else if 1 / 2 < d then f + 1 else if even f then f else f + 1)"

text \<open>
  For \<open>0 < x\<close>: the doubles around \<open>x\<close> are the multiples of \<open>2 ^ (e - 52)\<close>, where \<open>e\<close> is the
  exponent of \<open>x\<close>, and not below that of the smallest normal number.
\<close>

definition nearest_double :: "real \<Rightarrow> real" where
  "nearest_double x =
     (let ulp = pow2 (max (ilog2 x) (- 1022) - 52)
      in of_int (round_half_even (x / ulp)) * ulp)"

definition double :: "real \<Rightarrow> real" where
  "double x = (if x = 0 then 0 else if x < 0 then - nearest_double (- x) else nearest_double x)"

subsection \<open>The renderer\<close>

text \<open>
  \<^verbatim>\<open>Math.round(x)\<close> is the integer nearest to the number x, a tie going up: \<open>\<lfloor>x + 1/2\<rfloor>\<close>,
  with no rounding of the sum.
\<close>

definition Math_round :: "real \<Rightarrow> int" where
  "Math_round x = \<lfloor>x + 1 / 2\<rfloor>"

text \<open>
  \<^verbatim>\<open>Math.round((size * padding) / 100)\<close>: the product is rounded to a double, then the
  quotient.
\<close>

definition paddingPixels :: "int \<Rightarrow> real \<Rightarrow> int" where
  "paddingPixels s pad = Math_round (double (double (double (of_int s) * double pad) / 100))"

text \<open>
  \<^verbatim>\<open>size - paddingPixels * 2\<close>: doubling a number is exact; the difference is rounded. Both
  operands hold integers, so the result holds an integer, which the floor reads.
\<close>

definition contentSize :: "int \<Rightarrow> real \<Rightarrow> int" where
  "contentSize s pad = \<lfloor>double (double (of_int s) - of_int (paddingPixels s pad * 2))\<rfloor>"

text \<open>\<^verbatim>\<open>contentSize * 0.2\<close>: the literal is the double nearest to 0.2, the product is rounded.\<close>

definition radius :: "int \<Rightarrow> real \<Rightarrow> real" where
  "radius s pad = double (of_int (contentSize s pad) * double (2 / 10))"

text \<open>
  The SVG text of the mask, kept as its structure: the root element's width and height and
  the attributes of its one \<^verbatim>\<open>rect\<close>.
\<close>

record svg_rect =
  rect_x :: int
  rect_y :: int
  rect_width :: int
  rect_height :: int
  rect_rx :: real
  rect_ry :: real

record svg_doc =
  svg_width :: int
  svg_height :: int
  svg_shape :: svg_rect

record rgba =
  rgba_r :: int
  rgba_g :: int
  rgba_b :: int
  rgba_alpha :: int

record extend_options =
  ext_top :: int
  ext_bottom :: int
  ext_left :: int
  ext_right :: int
  ext_background :: rgba

datatype blend_mode = DestIn

datatype output_format = Png

text \<open>
  How the resize step fits the source into the target: the option \<^verbatim>\<open>fit\<close> of
  \<^verbatim>\<open>resize\<close>. The library's default, when the caller passes none, is \<^verbatim>\<open>cover\<close>.
\<close>

datatype fit = Cover | Contain | Fill | Inside | Outside

text \<open>
  The object of the image library: the calls made on it so far. \<^verbatim>\<open>sharp(input)\<close> creates
  it, with the library's defaults and without reading the file; each chained method checks
  its arguments, records them and hands the object on. The source passes width and height to
  \<^verbatim>\<open>resize\<close> and no options, so the fit stays \<^verbatim>\<open>cover\<close>. Decoding the source, resampling
  and encoding happen when the request is executed; they enter below as the function
  \<open>render\<close> of the environment.
\<close>

record sharp_obj =
  sharp_input :: string
  resize_dims :: "(int \<times> int) option"
  resize_fit :: fit
  extend_by :: "extend_options option"
  composite_layers :: "(svg_doc \<times> blend_mode) list"
  to_format :: "output_format option"

text \<open>
  Errors: \<open>Error\<close> is \<^verbatim>\<open>new Error(message)\<close> thrown by the module itself, \<open>FsError\<close> a
  failure of a filesystem call (its code and path), \<open>InvalidParameter\<close> the image library
  refusing an argument of a call (the argument's name), \<open>External\<close> a failure reported by
  the image library when it executes a request, or by the packaging command.
\<close>

datatype error = Error string | FsError string "string list" | InvalidParameter string | External string

definition sharp :: "string \<Rightarrow> sharp_obj" where
  "sharp input = \<lparr>sharp_input = input, resize_dims = None, resize_fit = Cover, extend_by = None,
     composite_layers = [], to_format = None\<rparr>"

text \<open>
  \<^verbatim>\<open>.resize(width, height)\<close>: the library throws inside the call unless the width is a
  positive integer, and likewise the height.
\<close>

definition sharp_resize :: "int \<Rightarrow> int \<Rightarrow> sharp_obj \<Rightarrow> error + sharp_obj" where
  "sharp_resize w h obj =
     (if \<not> 0 < w then Inl (InvalidParameter ''width'')
      else if \<not> 0 < h then Inl (InvalidParameter ''height'')
      else Inr (obj\<lparr>resize_dims := Some (w, h)\<rparr>))"

text \<open>
  \<^verbatim>\<open>.extend({ top, bottom, left, right, background })\<close>: the library throws inside the call
  unless each side is a non-negative integer.
\<close>

definition sharp_extend :: "extend_options \<Rightarrow> sharp_obj \<Rightarrow> error + sharp_obj" where
  "sharp_extend opts obj =
     (if \<not> 0 \<le> ext_top opts then Inl (InvalidParameter ''top'')
      else if \<not> 0 \<le> ext_bottom opts then Inl (InvalidParameter ''bottom'')
      else if \<not> 0 \<le> ext_left opts then Inl (InvalidParameter ''left'')
      else if \<not> 0 \<le> ext_right opts then Inl (InvalidParameter ''right'')
      else Inr (obj\<lparr>extend_by := Some opts\<rparr>))"

text \<open>
  \<^verbatim>\<open>.composite([{ input, blend: "dest-in" }])\<close> and \<^verbatim>\<open>.png()\<close>: their arguments are
  constants of the source that the library accepts.
\<close>

definition sharp_composite :: "(svg_doc \<times> blend_mode) list \<Rightarrow> sharp_obj \<Rightarrow> sharp_obj" where
  "sharp_composite layers obj = obj\<lparr>composite_layers := layers\<rparr>"

definition sharp_png :: "sharp_obj \<Rightarrow> sharp_obj" where
  "sharp_png obj = obj\<lparr>to_format := Some Png\<rparr>"

definition svg :: "int \<Rightarrow> real \<Rightarrow> svg_doc" where
  "svg s pad =
     \<lparr>svg_width = s, svg_height = s,
      svg_shape = \<lparr>rect_x = paddingPixels s pad, rect_y = paddingPixels s pad,
                   rect_width = contentSize s pad, rect_height = contentSize s pad,
                   rect_rx = radius s pad, rect_ry = radius s pad\<rparr>\<rparr>"

text \<open>
  \<^verbatim>\<open>createRoundedImage(input, size, padding)\<close>. The body has no check of its own; the chain
  of calls on the library's object stops at the first call that throws. It takes no
  filesystem: nothing is read or written before it returns.
\<close>

definition createRoundedImage :: "string \<Rightarrow> int \<Rightarrow> real \<Rightarrow> error + sharp_obj" where
  "createRoundedImage input s pad =
     (case sharp_resize (contentSize s pad) (contentSize s pad) (sharp input) of
        Inl err \<Rightarrow> Inl err
      | Inr resized \<Rightarrow>
          (case sharp_extend \<lparr>ext_top = paddingPixels s pad, ext_bottom = paddingPixels s pad,
                   ext_left = paddingPixels s pad, ext_right = paddingPixels s pad,
                   ext_background = \<lparr>rgba_r = 0, rgba_g = 0, rgba_b = 0, rgba_alpha = 0\<rparr>\<rparr>
                 resized of
             Inl err \<Rightarrow> Inl err
           | Inr extended \<Rightarrow> Inr (sharp_png (sharp_composite [(svg s pad, DestIn)] extended))))"

text \<open>
  The pixel size of the canvas that a request describes: the resize target, grown by the
  extension on each side.
\<close>

definition canvas_size :: "sharp_obj \<Rightarrow> (int \<times> int) option" where
  "canvas_size obj =
     (case resize_dims obj of
        None \<Rightarrow> None
      | Some (w, h) \<Rightarrow>
          (case extend_by obj of
             None \<Rightarrow> Some (w, h)
           | Some e \<Rightarrow> Some (w + ext_left e + ext_right e, h + ext_top e + ext_bottom e)))"

text \<open>
  What the resize step does with a source of \<open>sw x sh\<close> pixels and a target of \<open>w x h\<close>, by
  its fit, as the library documents it and before the rounding to whole pixels.
  \<open>resize_scale\<close> is the pair of factors by which the two axes of the source are scaled:
  \<^verbatim>\<open>fill\<close> stretches each axis by its own factor, \<^verbatim>\<open>cover\<close> and \<^verbatim>\<open>outside\<close> scale both by
  the larger of the two, \<^verbatim>\<open>contain\<close> and \<^verbatim>\<open>inside\<close> both by the smaller. \<open>source_shown\<close> is
  the width and height, in pixels of the source, of the part of the source that reaches the
  result: all of it, except with \<^verbatim>\<open>cover\<close>, which crops the scaled source to the target.
\<close>

definition resize_scale :: "fit \<Rightarrow> int \<times> int \<Rightarrow> int \<times> int \<Rightarrow> real \<times> real" where
  "resize_scale f src tgt =
     (let fx = of_int (fst tgt) / of_int (fst src); fy = of_int (snd tgt) / of_int (snd src)
      in case f of
           Fill \<Rightarrow> (fx, fy)
         | Cover \<Rightarrow> (max fx fy, max fx fy)
         | Outside \<Rightarrow> (max fx fy, max fx fy)
         | Contain \<Rightarrow> (min fx fy, min fx fy)
         | Inside \<Rightarrow> (min fx fy, min fx fy))"

definition source_shown :: "fit \<Rightarrow> int \<times> int \<Rightarrow> int \<times> int \<Rightarrow> real \<times> real" where
  "source_shown f src tgt =
     (case f of
        Cover \<Rightarrow> (of_int (fst tgt) / fst (resize_scale Cover src tgt),
                  of_int (snd tgt) / snd (resize_scale Cover src tgt))
      | _ \<Rightarrow> (of_int (fst src), of_int (snd src)))"

subsection \<open>Paths\<close>

text \<open>
  Paths are POSIX paths, as on macOS, where the tool runs. A resolved path is absolute and
  normalised; it is kept as the list of its components, the root being the empty list.
  \<open>path_string\<close> is its text.
\<close>

type_synonym path = "string list"

definition path_string :: "path \<Rightarrow> string" where
  "path_string p = (if p = [] then ''/'' else concat (map (\<lambda>c. CHR ''/'' # c) p))"

fun split_slash :: "string \<Rightarrow> string list" where
  "split_slash [] = [[]]"
| "split_slash (c # cs) =
     (if c = CHR ''/'' then [] # split_slash cs
      else (case split_slash cs of [] \<Rightarrow> [[c]] | w # ws \<Rightarrow> (c # w) # ws))"

text \<open>One component applied to a resolved path: empty and \<^verbatim>\<open>.\<close> stay, \<^verbatim>\<open>..\<close> goes up.\<close>

definition seg_step :: "path \<Rightarrow> string \<Rightarrow> path" where
  "seg_step p s = (if s = [] \<or> s = ''.'' then p else if s = ''..'' then butlast p else p @ [s])"

definition isAbsolute :: "string \<Rightarrow> bool" where
  "isAbsolute s = (case s of [] \<Rightarrow> False | c # _ \<Rightarrow> c = CHR ''/'')"

text \<open>\<^verbatim>\<open>path.resolve(base, s)\<close> for a resolved \<open>base\<close>.\<close>

definition path_resolve :: "path \<Rightarrow> string \<Rightarrow> path" where
  "path_resolve base s = foldl seg_step (if isAbsolute s then [] else base) (split_slash s)"

text \<open>\<^verbatim>\<open>path.join(base, s)\<close> for a resolved \<open>base\<close>: a leading slash of \<open>s\<close> does not restart.\<close>

definition path_join :: "path \<Rightarrow> string \<Rightarrow> path" where
  "path_join base s = foldl seg_step base (split_slash s)"

text \<open>A string that is one ordinary component: joining it to a path appends it.\<close>

definition simple_name :: "string \<Rightarrow> bool" where
  "simple_name n = (n \<noteq> [] \<and> n \<noteq> ''.'' \<and> n \<noteq> ''..'' \<and> CHR ''/'' \<notin> set n)"

text \<open>
  \<^verbatim>\<open>path.extname\<close>: from the last dot of the last component to its end; empty when that
  component has no dot, starts with its only dot, or is \<^verbatim>\<open>..\<close>.
\<close>

definition extname_base :: "string \<Rightarrow> string" where
  "extname_base bn =
     (if bn = ''..'' then []
      else (let upto = rev (dropWhile (\<lambda>c. c \<noteq> CHR ''.'') (rev bn))
            in if length upto \<le> 1 then [] else drop (length upto - 1) bn))"

definition extname :: "string \<Rightarrow> string" where
  "extname s =
     (case rev (filter (\<lambda>c. c \<noteq> []) (split_slash s)) of [] \<Rightarrow> [] | bn # _ \<Rightarrow> extname_base bn)"

definition toLowerCase_char :: "char \<Rightarrow> char" where
  "toLowerCase_char c =
     (case map_of (zip ''ABCDEFGHIJKLMNOPQRSTUVWXYZ'' ''abcdefghijklmnopqrstuvwxyz'') c of
        None \<Rightarrow> c | Some l \<Rightarrow> l)"

definition toLowerCase :: "string \<Rightarrow> string" where
  "toLowerCase s = map toLowerCase_char s"

text \<open>\<^verbatim>\<open>xs.join(sep)\<close>\<close>

fun join :: "string \<Rightarrow> string list \<Rightarrow> string" where
  "join sep [] = []"
| "join sep [x] = x"
| "join sep (x # y # ys) = x @ sep @ join sep (y # ys)"

text \<open>\<^verbatim>\<open>name.replace(/^icon_/, "")\<close>\<close>

definition strip_icon_prefix :: "string \<Rightarrow> string" where
  "strip_icon_prefix n = (if take 5 n = ''icon_'' then drop 5 n else n)"

subsection \<open>Configuration\<close>

definition defaultFormats :: "string list" where
  "defaultFormats =
     [''.png'', ''.jpg'', ''.jpeg'', ''.webp'', ''.tiff'', ''.gif'', ''.svg'', ''.avif'',
      ''.heif'', ''.bmp'']"

record config =
  inputFile :: string
  iconsetDir :: string
  outputIcns :: string
  workDir :: string
  outputDir :: string
  padding :: real
  supportedFormats :: "string list"

text \<open>The options object of a call: a key is present (\<open>Some\<close>) or absent.\<close>

record options =
  opt_inputFile :: "string option"
  opt_iconsetDir :: "string option"
  opt_outputIcns :: "string option"
  opt_workDir :: "string option"
  opt_outputDir :: "string option"
  opt_padding :: "real option"
  opt_supportedFormats :: "string list option"

text \<open>\<^verbatim>\<open>defaultConfig\<close>; \<^verbatim>\<open>process.cwd()\<close> is the argument.\<close>

definition defaultConfig :: "path \<Rightarrow> config" where
  "defaultConfig cwd =
     \<lparr>inputFile = ''icon.png'', iconsetDir = ''icon.iconset'', outputIcns = ''icon.icns'',
      workDir = path_string cwd, outputDir = ''output'', padding = 875 / 100,
      supportedFormats = defaultFormats\<rparr>"

definition or_default :: "'a option \<Rightarrow> 'a \<Rightarrow> 'a" where
  "or_default v d = (case v of None \<Rightarrow> d | Some x \<Rightarrow> x)"

text \<open>\<^verbatim>\<open>{ ...defaultConfig, ...options }\<close>\<close>

definition merge :: "config \<Rightarrow> options \<Rightarrow> config" where
  "merge d opts =
     \<lparr>inputFile = or_default (opt_inputFile opts) (inputFile d),
      iconsetDir = or_default (opt_iconsetDir opts) (iconsetDir d),
      outputIcns = or_default (opt_outputIcns opts) (outputIcns d),
      workDir = or_default (opt_workDir opts) (workDir d),
      outputDir = or_default (opt_outputDir opts) (outputDir d),
      padding = or_default (opt_padding opts) (padding d),
      supportedFormats = or_default (opt_supportedFormats opts) (supportedFormats d)\<rparr>"

definition no_options :: options where
  "no_options =
     \<lparr>opt_inputFile = None, opt_iconsetDir = None, opt_outputIcns = None, opt_workDir = None,
      opt_outputDir = None, opt_padding = None, opt_supportedFormats = None\<rparr>"

text \<open>\<^verbatim>\<open>isSupportedFormat(filePath, supportedFormats)\<close>\<close>

definition isSupportedFormat :: "string \<Rightarrow> string list \<Rightarrow> bool" where
  "isSupportedFormat filePath fmts = (let ext = toLowerCase (extname filePath) in ext \<in> set fmts)"

subsection \<open>The filesystem\<close>

datatype node = File string | Dir

type_synonym fs = "path \<Rightarrow> node option"

text \<open>An action on the filesystem: it fails (\<open>Inl\<close>) or returns (\<open>Inr\<close>), and leaves a state.\<close>

type_synonym 'a io = "fs \<Rightarrow> (error + 'a) \<times> fs"

definition return_io :: "'a \<Rightarrow> 'a io" where
  "return_io x = (\<lambda>s. (Inr x, s))"

definition throw_io :: "error \<Rightarrow> 'a io" where
  "throw_io e = (\<lambda>s. (Inl e, s))"

definition bind_io :: "'a io \<Rightarrow> ('a \<Rightarrow> 'b io) \<Rightarrow> 'b io" where
  "bind_io m f = (\<lambda>s. case m s of (Inl e, s') \<Rightarrow> (Inl e, s') | (Inr x, s') \<Rightarrow> f x s')"

definition catch_io :: "'a io \<Rightarrow> (error \<Rightarrow> 'a io) \<Rightarrow> 'a io" where
  "catch_io m h = (\<lambda>s. case m s of (Inl e, s') \<Rightarrow> h e s' | (Inr x, s') \<Rightarrow> (Inr x, s'))"

definition existsSync :: "fs \<Rightarrow> path \<Rightarrow> bool" where
  "existsSync s p = (p = [] \<or> s p \<noteq> None)"

definition is_dir :: "fs \<Rightarrow> path \<Rightarrow> bool" where
  "is_dir s p = (p = [] \<or> s p = Some Dir)"

definition is_file :: "fs \<Rightarrow> path \<Rightarrow> bool" where
  "is_file s p = (p \<noteq> [] \<and> (case s p of Some (File _) \<Rightarrow> True | _ \<Rightarrow> False))"

text \<open>
  \<^verbatim>\<open>fs.mkdir(p, { recursive: true })\<close>: the directory and its missing ancestors; it fails
  when the path or an ancestor is a regular file.
\<close>

definition mkdir_recursive :: "path \<Rightarrow> unit io" where
  "mkdir_recursive p =
     (\<lambda>s. if list_ex (is_file s) (prefixes p) then (Inl (FsError ''ENOTDIR'' p), s)
          else (Inr (), (\<lambda>q. if prefix q p \<and> q \<noteq> [] \<and> s q = None then Some Dir else s q)))"

text \<open>
  \<^verbatim>\<open>if (!fs.existsSync(p)) { await fs.mkdir(p, { recursive: true }) }\<close>, the first
  statement on the output directory in both \<^verbatim>\<open>generateIconset\<close> and \<^verbatim>\<open>generateIcns\<close>.
\<close>

definition ensure_dir :: "path \<Rightarrow> unit io" where
  "ensure_dir p = (\<lambda>s. if \<not> existsSync s p then mkdir_recursive p s else (Inr (), s))"

text \<open>\<^verbatim>\<open>fs.mkdir(p)\<close>: the path must be new and its parent a directory.\<close>

definition mkdir :: "path \<Rightarrow> unit io" where
  "mkdir p =
     (\<lambda>s. if existsSync s p then (Inl (FsError ''EEXIST'' p), s)
          else if \<not> existsSync s (butlast p) then (Inl (FsError ''ENOENT'' p), s)
          else if \<not> is_dir s (butlast p) then (Inl (FsError ''ENOTDIR'' p), s)
          else (Inr (), s(p \<mapsto> Dir)))"

text \<open>\<^verbatim>\<open>fs.remove(p)\<close> of fs-extra: the entry and everything below it; a missing path is fine.\<close>

definition remove :: "path \<Rightarrow> unit io" where
  "remove p = (\<lambda>s. (Inr (), (\<lambda>q. if prefix p q then None else s q)))"

text \<open>Writing a regular file: the parent must be a directory and the target not one.\<close>

definition write_file :: "path \<Rightarrow> string \<Rightarrow> unit io" where
  "write_file p bytes =
     (\<lambda>s. if is_dir s p then (Inl (FsError ''EISDIR'' p), s)
          else if \<not> is_dir s (butlast p) then (Inl (FsError ''ENOENT'' p), s)
          else (Inr (), s(p \<mapsto> File bytes)))"

text \<open>\<^verbatim>\<open>fs.copyFile(src, dest)\<close>\<close>

definition copyFile :: "path \<Rightarrow> path \<Rightarrow> unit io" where
  "copyFile src dest =
     (\<lambda>s. if src = [] then (Inl (FsError ''EISDIR'' src), s)
          else (case s src of
                  None \<Rightarrow> (Inl (FsError ''ENOENT'' src), s)
                | Some Dir \<Rightarrow> (Inl (FsError ''EISDIR'' src), s)
                | Some (File bytes) \<Rightarrow> write_file dest bytes s))"

subsection \<open>The environment\<close>

text \<open>
  What the module reaches outside itself: the working directory of the process, the image
  library turning a request into PNG bytes (or failing), and \<^verbatim>\<open>execSync\<close> running a
  command line.
\<close>

record env =
  cwd :: path
  render :: "sharp_obj \<Rightarrow> fs \<Rightarrow> error + string"
  execSync :: "string \<Rightarrow> unit io"

text \<open>\<^verbatim>\<open>rounded.toFile(outputPath)\<close>\<close>

definition toFile :: "env \<Rightarrow> sharp_obj \<Rightarrow> path \<Rightarrow> unit io" where
  "toFile e obj outputPath =
     (\<lambda>s. case render e obj s of Inl err \<Rightarrow> (Inl err, s) | Inr bytes \<Rightarrow> write_file outputPath bytes s)"

subsection \<open>Assembling the iconset\<close>

text \<open>The loop over \<^verbatim>\<open>allSizes\<close> in \<^verbatim>\<open>generateIconset\<close>.\<close>

fun renderAll :: "env \<Rightarrow> path \<Rightarrow> path \<Rightarrow> real \<Rightarrow> IconSize list \<Rightarrow> unit io" where
  "renderAll e iconsetPath inputPath pad [] = return_io ()"
| "renderAll e iconsetPath inputPath pad (sz # rest) =
     (let outputPath = path_join iconsetPath (name sz) in
      bind_io (\<lambda>s. case createRoundedImage (path_string inputPath) (edge sz) pad of
                     Inl err \<Rightarrow> (Inl err, s)
                   | Inr rounded \<Rightarrow> toFile e rounded outputPath s)
        (\<lambda>_. renderAll e iconsetPath inputPath pad rest))"

definition unsupported_message :: "string \<Rightarrow> string list \<Rightarrow> string" where
  "unsupported_message ext fmts =
     ''Unsupported file format: '' @ ext @ [CHR 0x0A] @ ''Supported formats: '' @ join '', '' fmts"

definition generateIconset :: "env \<Rightarrow> options \<Rightarrow> path io" where
  "generateIconset e opts =
     (let cfg = merge (defaultConfig (cwd e)) opts;
          inputPath = path_resolve (path_resolve (cwd e) (workDir cfg)) (inputFile cfg);
          outputDirPath = path_resolve (path_resolve (cwd e) (workDir cfg)) (outputDir cfg)
      in bind_io (ensure_dir outputDirPath)
        (\<lambda>_. let iconsetPath = path_resolve outputDirPath (iconsetDir cfg) in
          bind_io (\<lambda>s. if \<not> existsSync s inputPath
                        then (Inl (Error (''Input file does not exist: '' @ path_string inputPath)), s)
                        else (Inr (), s))
          (\<lambda>_. bind_io (\<lambda>s. if \<not> isSupportedFormat (path_string inputPath) (supportedFormats cfg)
                        then (let ext = extname (path_string inputPath)
                              in (Inl (Error (unsupported_message ext (supportedFormats cfg))), s))
                        else (Inr (), s))
          (\<lambda>_. bind_io (remove iconsetPath)
          (\<lambda>_. bind_io (mkdir iconsetPath)
          (\<lambda>_. bind_io (renderAll e iconsetPath inputPath (padding cfg) allSizes)
          (\<lambda>_. return_io iconsetPath)))))))"

subsection \<open>Packaging and the plain export\<close>

text \<open>The loop over \<^verbatim>\<open>allSizes\<close> in \<^verbatim>\<open>generateIcns\<close>.\<close>

fun copyAll :: "path \<Rightarrow> path \<Rightarrow> IconSize list \<Rightarrow> unit io" where
  "copyAll iconsetResult plainDir [] = return_io ()"
| "copyAll iconsetResult plainDir (sz # rest) =
     (let srcFile = path_join iconsetResult (name sz);
          plainName = strip_icon_prefix (name sz);
          destFile = path_join plainDir plainName
      in bind_io (copyFile srcFile destFile) (\<lambda>_. copyAll iconsetResult plainDir rest))"

definition iconutil_command :: "path \<Rightarrow> path \<Rightarrow> string" where
  "iconutil_command iconsetResult outputPath =
     ''iconutil -c icns \"'' @ path_string iconsetResult @ ''\" -o \"'' @ path_string outputPath @ ''\"''"

text \<open>The statements of the \<^verbatim>\<open>try\<close> block after the call of \<^verbatim>\<open>generateIconset\<close>.\<close>

definition exportPlain :: "path \<Rightarrow> path \<Rightarrow> unit io" where
  "exportPlain outputDirPath iconsetResult =
     (let plainDir = path_resolve outputDirPath ''icons'' in
      bind_io (remove plainDir)
        (\<lambda>_. bind_io (mkdir plainDir)
        (\<lambda>_. copyAll iconsetResult plainDir allSizes)))"

definition generateIcns :: "env \<Rightarrow> options \<Rightarrow> path io" where
  "generateIcns e opts =
     (let cfg = merge (defaultConfig (cwd e)) opts;
          outputDirPath = path_resolve (path_resolve (cwd e) (workDir cfg)) (outputDir cfg)
      in bind_io (ensure_dir outputDirPath)
        (\<lambda>_. let outputPath = path_resolve outputDirPath (outputIcns cfg) in
          catch_io
            (bind_io (generateIconset e opts)
              (\<lambda>iconsetResult. bind_io (execSync e (iconutil_command iconsetResult outputPath))
              (\<lambda>_. bind_io (exportPlain outputDirPath iconsetResult)
              (\<lambda>_. return_io outputPath))))
            (\<lambda>err. throw_io err)))"

subsection \<open>The paths of a call\<close>

text \<open>The values that the two functions bind at their start, as functions of the call.\<close>

definition config_of :: "env \<Rightarrow> options \<Rightarrow> config" where
  "config_of e opts = merge (defaultConfig (cwd e)) opts"

definition inputPath_of :: "env \<Rightarrow> options \<Rightarrow> path" where
  "inputPath_of e opts =
     path_resolve (path_resolve (cwd e) (workDir (config_of e opts))) (inputFile (config_of e opts))"

definition outputDirPath_of :: "env \<Rightarrow> options \<Rightarrow> path" where
  "outputDirPath_of e opts =
     path_resolve (path_resolve (cwd e) (workDir (config_of e opts))) (outputDir (config_of e opts))"

definition iconsetPath_of :: "env \<Rightarrow> options \<Rightarrow> path" where
  "iconsetPath_of e opts = path_resolve (outputDirPath_of e opts) (iconsetDir (config_of e opts))"

definition outputPath_of :: "env \<Rightarrow> options \<Rightarrow> path" where
  "outputPath_of e opts = path_resolve (outputDirPath_of e opts) (outputIcns (config_of e opts))"

definition plainDir_of :: "env \<Rightarrow> options \<Rightarrow> path" where
  "plainDir_of e opts = path_resolve (outputDirPath_of e opts) ''icons''"

subsection \<open>A concrete environment\<close>

text \<open>
  A working directory \<^verbatim>\<open>/w\<close> that holds \<^verbatim>\<open>icon.png\<close> and \<^verbatim>\<open>icon.xyz\<close> and no output
  directory; an image library that always delivers; a packaging command that writes the
  artifact \<^verbatim>\<open>/w/output/icon.icns\<close>.
\<close>

definition example_render :: "sharp_obj \<Rightarrow> fs \<Rightarrow> error + string" where
  "example_render obj s = Inr ''PNG''"

definition example_execSync :: "string \<Rightarrow> unit io" where
  "example_execSync cmd = write_file [''w'', ''output'', ''icon.icns''] ''ICNS''"

definition example_env :: env where
  "example_env = \<lparr>cwd = [''w''], render = example_render, execSync = example_execSync\<rparr>"

definition example_fs :: fs where
  "example_fs =
     Map.empty([''w''] \<mapsto> Dir, [''w'', ''icon.png''] \<mapsto> File ''source'',
               [''w'', ''icon.xyz''] \<mapsto> File ''source'')"

definition xyz_options :: options where
  "xyz_options = no_options\<lparr>opt_inputFile := Some ''icon.xyz''\<rparr>"

definition missing_options :: options where
  "missing_options = no_options\<lparr>opt_inputFile := Some ''missing.xyz''\<rparr>"

text \<open>
  A second run in the same place, with the staging directory asked for as
  \<^verbatim>\<open>icons/icon.iconset\<close>: \<^verbatim>\<open>/w/output\<close> and \<^verbatim>\<open>/w/output/icons\<close> exist from before.
\<close>

definition nested_options :: options where
  "nested_options = no_options\<lparr>opt_iconsetDir := Some ''icons/icon.iconset''\<rparr>"

definition example_fs_rerun :: fs where
  "example_fs_rerun = example_fs([''w'', ''output''] \<mapsto> Dir, [''w'', ''output'', ''icons''] \<mapsto> Dir)"

text \<open>
  A run with padding 50 over a staging directory that holds a file from before.
\<close>

definition half_options :: options where
  "half_options = no_options\<lparr>opt_padding := Some 50\<rparr>"

definition example_fs_stale :: fs where
  "example_fs_stale =
     example_fs([''w'', ''output''] \<mapsto> Dir, [''w'', ''output'', ''icon.iconset''] \<mapsto> Dir,
                [''w'', ''output'', ''icon.iconset'', ''old.png''] \<mapsto> File ''old'')"



subsection \<open>The list of supported formats, as an object in the store\<close>

text \<open>
  Arrays are objects: a variable holds the address of an array, and the store maps
  addresses to contents. \<open>supportedFormats_ref\<close> is the array that the literal in
  \<^verbatim>\<open>defaultConfig\<close> creates when the module is loaded.
\<close>

type_synonym addr = nat

record store =
  arrays :: "addr \<Rightarrow> string list option"
  next_addr :: addr

definition supportedFormats_ref :: addr where
  "supportedFormats_ref = 0"

definition initial_store :: store where
  "initial_store = \<lparr>arrays = Map.empty(supportedFormats_ref \<mapsto> defaultFormats), next_addr = 1\<rparr>"

text \<open>\<^verbatim>\<open>[...a]\<close>: a new array with the elements of the array at \<open>a\<close>.\<close>

definition array_spread :: "addr \<Rightarrow> store \<Rightarrow> addr \<times> store" where
  "array_spread a st =
     (next_addr st,
      st\<lparr>arrays := (arrays st)(next_addr st \<mapsto> or_default (arrays st a) []),
         next_addr := Suc (next_addr st)\<rparr>)"

definition getSupportedFormats :: "store \<Rightarrow> addr \<times> store" where
  "getSupportedFormats st = array_spread supportedFormats_ref st"

text \<open>Any mutation of the array at an address: its contents are replaced by \<open>f\<close> of them.\<close>

definition mutate_array :: "addr \<Rightarrow> (string list \<Rightarrow> string list) \<Rightarrow> store \<Rightarrow> store" where
  "mutate_array a f st = st\<lparr>arrays := (arrays st)(a := map_option f (arrays st a))\<rparr>"

text \<open>Every allocated address lies below the next free one, and the default list is in place.\<close>

definition store_ok :: "store \<Rightarrow> bool" where
  "store_ok st =
     (arrays st supportedFormats_ref = Some defaultFormats \<and> supportedFormats_ref < next_addr st)"

section \<open>The size planner\<close>

lemma int_string_sizes:
  "int_string 16 = ''16''" "int_string 32 = ''32''" "int_string 64 = ''64''"
  "int_string 128 = ''128''" "int_string 256 = ''256''" "int_string 512 = ''512''"
  "int_string 1024 = ''1024''"
  by (simp_all add: int_string_def nat_string.simps digit_char_def)

lemma allSizes_list:
  "allSizes =
     [\<lparr>name = ''icon_16x16.png'', edge = 16\<rparr>, \<lparr>name = ''icon_16x16@2x.png'', edge = 32\<rparr>,
      \<lparr>name = ''icon_32x32.png'', edge = 32\<rparr>, \<lparr>name = ''icon_32x32@2x.png'', edge = 64\<rparr>,
      \<lparr>name = ''icon_64x64.png'', edge = 64\<rparr>, \<lparr>name = ''icon_64x64@2x.png'', edge = 128\<rparr>,
      \<lparr>name = ''icon_128x128.png'', edge = 128\<rparr>, \<lparr>name = ''icon_128x128@2x.png'', edge = 256\<rparr>,
      \<lparr>name = ''icon_256x256.png'', edge = 256\<rparr>, \<lparr>name = ''icon_256x256@2x.png'', edge = 512\<rparr>,
      \<lparr>name = ''icon_512x512.png'', edge = 512\<rparr>, \<lparr>name = ''icon_512x512@2x.png'', edge = 1024\<rparr>,
      \<lparr>name = ''icon_1024x1024.png'', edge = 1024\<rparr>,
      \<lparr>name = ''icon_1024x1024@2x.png'', edge = 2048\<rparr>]"
  by (simp add: allSizes_def flatMap_def sizes_def sizePair_def int_string_sizes)

text \<open>
  Claim C3. On the canonical base list the planner emits exactly 14 entries: for each base
  length L, in ascending order, the entry \<^verbatim>\<open>icon_LxL.png\<close> of edge L and right after it the
  entry \<^verbatim>\<open>icon_LxL@2x.png\<close> of edge 2L.
\<close>

theorem allSizes_canonical:
  "sizes = [16, 32, 64, 128, 256, 512, 1024]
   \<and> allSizes =
     [\<lparr>name = ''icon_16x16.png'', edge = 16\<rparr>, \<lparr>name = ''icon_16x16@2x.png'', edge = 32\<rparr>,
      \<lparr>name = ''icon_32x32.png'', edge = 32\<rparr>, \<lparr>name = ''icon_32x32@2x.png'', edge = 64\<rparr>,
      \<lparr>name = ''icon_64x64.png'', edge = 64\<rparr>, \<lparr>name = ''icon_64x64@2x.png'', edge = 128\<rparr>,
      \<lparr>name = ''icon_128x128.png'', edge = 128\<rparr>, \<lparr>name = ''icon_128x128@2x.png'', edge = 256\<rparr>,
      \<lparr>name = ''icon_256x256.png'', edge = 256\<rparr>, \<lparr>name = ''icon_256x256@2x.png'', edge = 512\<rparr>,
      \<lparr>name = ''icon_512x512.png'', edge = 512\<rparr>, \<lparr>name = ''icon_512x512@2x.png'', edge = 1024\<rparr>,
      \<lparr>name = ''icon_1024x1024.png'', edge = 1024\<rparr>,
      \<lparr>name = ''icon_1024x1024@2x.png'', edge = 2048\<rparr>]
   \<and> length allSizes = 14"
  by (simp add: allSizes_def flatMap_def sizes_def sizePair_def int_string_sizes)

section \<open>Numbers\<close>

lemma bit_length_le: "n < 2 ^ k \<Longrightarrow> bit_length n \<le> k"
proof (induction k arbitrary: n)
  case 0
  then show ?case by (simp add: bit_length.simps)
next
  case (Suc k)
  have "n div 2 < 2 ^ k"
    using Suc.prems by simp
  then have "bit_length (n div 2) \<le> k"
    by (rule Suc.IH)
  then show ?case
    by (subst bit_length.simps) simp
qed

lemma bit_length_pos: "0 < n \<Longrightarrow> 0 < bit_length n"
  by (subst bit_length.simps) simp

lemma pow2_pos: "0 < pow2 k"
  by (simp add: pow2_def)

lemma pow2_nonpos: "k \<le> 0 \<Longrightarrow> pow2 k = 1 / 2 ^ nat (- k)"
  by (simp add: pow2_def)

lemma round_half_even_int: "round_half_even (of_int z) = z"
  by (simp add: round_half_even_def)

lemma round_half_even_nonneg: "0 \<le> x \<Longrightarrow> 0 \<le> round_half_even x"
  by (simp add: round_half_even_def Let_def)

lemma nearest_double_nonneg: "0 \<le> x \<Longrightarrow> 0 \<le> nearest_double x"
  using pow2_pos by (simp add: nearest_double_def Let_def round_half_even_nonneg less_imp_le)

lemma double_nonneg: "0 \<le> x \<Longrightarrow> 0 \<le> double x"
  by (simp add: double_def nearest_double_nonneg)

lemma double_nonpos: "x \<le> 0 \<Longrightarrow> double x \<le> 0"
  by (simp add: double_def nearest_double_nonneg)

text \<open>An integer below \<open>2 ^ 53\<close> in magnitude is a double.\<close>

lemma nearest_double_int:
  assumes "0 < n" "n < 2 ^ 53"
  shows "nearest_double (of_int n) = of_int n"
proof -
  define b where "b = bit_length (nat n)"
  have b1: "b \<le> 53"
    unfolding b_def using assms by (intro bit_length_le) (simp add: nat_less_iff)
  have b0: "0 < b"
    unfolding b_def using assms by (intro bit_length_pos) simp
  have e: "ilog2 (of_int n) = int b - 1"
    using assms by (simp add: ilog2_def b_def)
  define j where "j = nat (53 - int b)"
  have k: "max (ilog2 (of_int n)) (- 1022) - 52 = - int j"
    using b0 b1 by (simp add: e j_def)
  have u: "pow2 (max (ilog2 (of_int n)) (- 1022) - 52) = 1 / 2 ^ j"
    unfolding k by (simp add: pow2_nonpos)
  have q: "(of_int n :: real) / (1 / 2 ^ j) = of_int (n * 2 ^ j)"
    by simp
  show ?thesis
    unfolding nearest_double_def Let_def u q round_half_even_int by simp
qed

lemma double_int:
  assumes "\<bar>n\<bar> < 2 ^ 53"
  shows "double (of_int n) = of_int n"
proof -
  consider "n = 0" | "0 < n" | "n < 0" by linarith
  then show ?thesis
  proof cases
    case 1
    then show ?thesis by (simp add: double_def)
  next
    case 2
    then show ?thesis using assms nearest_double_int [of n] by (simp add: double_def)
  next
    case 3
    then have "nearest_double (of_int (- n)) = of_int (- n)"
      using assms by (intro nearest_double_int) simp_all
    then show ?thesis using 3 by (simp add: double_def)
  qed
qed

lemmas double_eval =
  double_def nearest_double_def round_half_even_def pow2_def ilog2_def bit_length.simps Let_def

text \<open>The literal \<^verbatim>\<open>0.2\<close>.\<close>

lemma double_fifth: "double (2 / 10) = 3602879701896397 / 2 ^ 54"
  by (simp add: double_eval)

section \<open>The renderer\<close>

lemma paddingPixels_nonneg:
  assumes "0 \<le> s" "0 \<le> pad"
  shows "0 \<le> paddingPixels s pad"
proof -
  have "0 \<le> double (of_int s) * double pad"
    using assms by (simp add: double_nonneg)
  then have "0 \<le> double (double (of_int s) * double pad) / 100"
    by (simp add: double_nonneg)
  then have "0 \<le> double (double (double (of_int s) * double pad) / 100)"
    by (rule double_nonneg)
  then show ?thesis
    by (simp add: paddingPixels_def Math_round_def)
qed

text \<open>
  Where the content size is positive and the edge length below \<open>2 ^ 53\<close>, the subtraction
  rounds nothing.
\<close>

lemma contentSize_exact:
  assumes "0 < s" "s < 2 ^ 53" "0 \<le> paddingPixels s pad" "0 < contentSize s pad"
  shows "contentSize s pad = s - paddingPixels s pad * 2"
proof -
  define y where "y = s - paddingPixels s pad * 2"
  have s: "double (of_int s) = of_int s"
    using assms by (intro double_int) simp
  have c: "contentSize s pad = \<lfloor>double (of_int y)\<rfloor>"
    by (simp add: contentSize_def s y_def)
  have "0 < y"
  proof (rule ccontr)
    assume "\<not> 0 < y"
    then have "double (of_int y) \<le> 0"
      by (intro double_nonpos) simp
    then show False using assms(4) c by linarith
  qed
  then have "\<bar>y\<bar> < 2 ^ 53"
    using assms y_def by simp
  then have "double (of_int y) = of_int y"
    by (rule double_int)
  then have "contentSize s pad = \<lfloor>(of_int y :: real)\<rfloor>"
    using c by simp
  then show ?thesis
    unfolding y_def by (simp only: floor_of_int)
qed

text \<open>And where the exact difference is not positive, neither is the content size.\<close>

lemma contentSize_nonpositive:
  assumes "\<bar>s\<bar> < 2 ^ 53" and "s - paddingPixels s pad * 2 \<le> 0"
  shows "contentSize s pad \<le> 0"
proof -
  have s: "double (of_int s) = of_int s"
    using assms(1) by (rule double_int)
  have "double (of_int (s - paddingPixels s pad * 2)) \<le> 0"
    using assms(2) by (intro double_nonpos) simp
  then have "\<lfloor>double (of_int (s - paddingPixels s pad * 2))\<rfloor> \<le> 0"
    by linarith
  then show ?thesis
    by (simp add: contentSize_def s)
qed

lemma paddingPixels_zero: "paddingPixels s 0 = 0"
  by (simp add: paddingPixels_def Math_round_def double_def)

lemma contentSize_zero:
  assumes "\<bar>s\<bar> < 2 ^ 53"
  shows "contentSize s 0 = s"
  using double_int [OF assms] by (simp add: contentSize_def paddingPixels_zero double_int)

lemma paddingPixels_default:
  "paddingPixels 16 (35 / 4) = 1" "paddingPixels 32 (35 / 4) = 3" "paddingPixels 64 (35 / 4) = 6"
  "paddingPixels 128 (35 / 4) = 11" "paddingPixels 256 (35 / 4) = 22"
  "paddingPixels 512 (35 / 4) = 45" "paddingPixels 1024 (35 / 4) = 90"
  "paddingPixels 2048 (35 / 4) = 179"
  by (simp_all add: paddingPixels_def Math_round_def double_eval)

lemma contentSize_default:
  "contentSize 16 (35 / 4) = 14" "contentSize 32 (35 / 4) = 26" "contentSize 64 (35 / 4) = 52"
  "contentSize 128 (35 / 4) = 106" "contentSize 256 (35 / 4) = 212"
  "contentSize 512 (35 / 4) = 422" "contentSize 1024 (35 / 4) = 844"
  "contentSize 2048 (35 / 4) = 1690"
  by (simp_all add: contentSize_def paddingPixels_default) (simp_all add: double_eval)

lemma radius_16_default: "radius 16 (35 / 4) = 6305039478318695 / 2 ^ 51"
  by (simp add: radius_def contentSize_default) (simp add: double_eval)

text \<open>The decimal text \<^verbatim>\<open>2.8000000000000003\<close> denotes that radius, and \<^verbatim>\<open>2.8\<close> does not.\<close>

lemma radius_16_default_text:
  "double (28000000000000003 / 10 ^ 16) = 6305039478318695 / 2 ^ 51"
  "double (28 / 10) \<noteq> 6305039478318695 / 2 ^ 51"
  by (simp_all add: double_eval)

text \<open>
  Likewise at the content sizes 106 and 212 of a default run, where the code writes
  \<^verbatim>\<open>21.200000000000003\<close> and \<^verbatim>\<open>42.400000000000006\<close>.
\<close>

lemma radius_default_rounded:
  "radius 128 (35 / 4) = double (21200000000000003 / 10 ^ 15)"
  "radius 128 (35 / 4) \<noteq> double (212 / 10)"
  "radius 256 (35 / 4) = double (42400000000000006 / 10 ^ 15)"
  "radius 256 (35 / 4) \<noteq> double (424 / 10)"
  by (simp_all add: radius_def contentSize_default) (simp_all add: double_eval)

lemma paddingPixels_16_half: "paddingPixels 16 50 = 8"
  by (simp add: paddingPixels_def Math_round_def double_eval)

lemma contentSize_16_half: "contentSize 16 50 = 0"
  by (simp add: contentSize_def paddingPixels_16_half) (simp add: double_eval)

text \<open>
  Two inputs where the rounding of the product shows. At edge 125 and padding 1.2 the
  product is the double 150 and there are 2 padding pixels, where the exact product of the
  two numbers, a little below 150, would give 1; at edge 375 and padding 9.2 the product is
  a double below 3450 and there are 34, where the decimal fractions would give 35.
\<close>

lemma paddingPixels_rounding:
  "paddingPixels 125 (6 / 5) = 2" "paddingPixels 375 (46 / 5) = 34"
  by (simp_all add: paddingPixels_def Math_round_def double_eval)

lemma contentSize_rounding:
  "contentSize 125 (6 / 5) = 121" "contentSize 375 (46 / 5) = 307"
  by (simp_all add: contentSize_def paddingPixels_rounding) (simp_all add: double_eval)

lemma paddingPixels_16_negative: "paddingPixels 16 (- 10) = - 2"
  by (simp add: paddingPixels_def Math_round_def double_eval)

lemma contentSize_16_negative: "contentSize 16 (- 10) = 20"
  by (simp add: contentSize_def paddingPixels_16_negative) (simp add: double_eval)

text \<open>
  The three outcomes of a call: the resize step refuses, the extension refuses, or the
  request is built.
\<close>

lemma createRoundedImage_width:
  "contentSize s pad \<le> 0 \<Longrightarrow> createRoundedImage input s pad = Inl (InvalidParameter ''width'')"
  by (simp add: createRoundedImage_def sharp_resize_def)

lemma createRoundedImage_top:
  "0 < contentSize s pad \<Longrightarrow> paddingPixels s pad < 0 \<Longrightarrow>
     createRoundedImage input s pad = Inl (InvalidParameter ''top'')"
  by (simp add: createRoundedImage_def sharp_resize_def sharp_extend_def)

lemma createRoundedImage_ok:
  "0 < contentSize s pad \<Longrightarrow> 0 \<le> paddingPixels s pad \<Longrightarrow>
     createRoundedImage input s pad =
       Inr \<lparr>sharp_input = input, resize_dims = Some (contentSize s pad, contentSize s pad),
            resize_fit = Cover,
            extend_by = Some \<lparr>ext_top = paddingPixels s pad, ext_bottom = paddingPixels s pad,
              ext_left = paddingPixels s pad, ext_right = paddingPixels s pad,
              ext_background = \<lparr>rgba_r = 0, rgba_g = 0, rgba_b = 0, rgba_alpha = 0\<rparr>\<rparr>,
            composite_layers = [(svg s pad, DestIn)], to_format = Some Png\<rparr>"
  by (simp add: createRoundedImage_def sharp_resize_def sharp_extend_def sharp_png_def
      sharp_composite_def sharp_def)

lemma createRoundedImage_cases:
  "createRoundedImage input s pad = Inl (InvalidParameter ''width'')
   \<or> createRoundedImage input s pad = Inl (InvalidParameter ''top'')
   \<or> (\<exists>obj. createRoundedImage input s pad = Inr obj)"
proof -
  consider "contentSize s pad \<le> 0" | "0 < contentSize s pad" "paddingPixels s pad < 0"
    | "0 < contentSize s pad" "0 \<le> paddingPixels s pad"
    by linarith
  then show ?thesis
    using createRoundedImage_width createRoundedImage_top createRoundedImage_ok
    by cases auto
qed

text \<open>A negative padding gives a positive content size and is refused by the extension.\<close>

lemma createRoundedImage_16_negative:
  "createRoundedImage ''icon.png'' 16 (- 10) = Inl (InvalidParameter ''top'')"
  by (simp add: createRoundedImage_top contentSize_16_negative paddingPixels_16_negative)

lemma createRoundedImage_default_ok:
  "\<forall>sz \<in> set allSizes. \<exists>obj. createRoundedImage input (edge sz) (35 / 4) = Inr obj"
  by (simp add: allSizes_list createRoundedImage_ok contentSize_default paddingPixels_default)

text \<open>
  Claim C1. A call of \<^verbatim>\<open>createRoundedImage\<close> whose content size is not positive fails:
  the resize step of the image library refuses the width inside the call. The function takes
  no filesystem, so nothing has been read or written when it fails; and a step of the loop
  that makes such a call fails with that error whatever the environment is, and leaves the
  filesystem as it was.
\<close>

theorem createRoundedImage_rejects_content_size:
  assumes "contentSize s pad \<le> 0"
  shows "createRoundedImage input s pad = Inl (InvalidParameter ''width'')
     \<and> (\<forall>e iconsetPath inputPath nm rest st.
          renderAll e iconsetPath inputPath pad (\<lparr>name = nm, edge = s\<rparr> # rest) st =
            (Inl (InvalidParameter ''width''), st))"
  using assms by (simp add: createRoundedImage_width bind_io_def)

theorem createRoundedImage_rejects_content_size_witness:
  "paddingPixels 16 50 = 8 \<and> contentSize 16 50 = 0
   \<and> createRoundedImage ''icon.png'' 16 50 = Inl (InvalidParameter ''width'')
   \<and> renderAll example_env [''w'', ''output'', ''icon.iconset''] [''w'', ''icon.png''] 50
        [\<lparr>name = ''icon_16x16.png'', edge = 16\<rparr>] example_fs =
       (Inl (InvalidParameter ''width''), example_fs)"
proof -
  have h: "contentSize 16 50 \<le> 0"
    by (simp add: contentSize_16_half)
  note t = createRoundedImage_rejects_content_size [OF h]
  have a: "createRoundedImage ''icon.png'' 16 50 = Inl (InvalidParameter ''width'')"
    using t [of "''icon.png''"] by (rule conjunct1)
  have b: "renderAll example_env [''w'', ''output'', ''icon.iconset''] [''w'', ''icon.png''] 50
        [\<lparr>name = ''icon_16x16.png'', edge = 16\<rparr>] example_fs =
       (Inl (InvalidParameter ''width''), example_fs)"
    using t [of "''icon.png''"] by blast
  from a b show ?thesis
    by (simp only: contentSize_16_half paddingPixels_16_half simp_thms)
qed

text \<open>
  Claim C4. For a valid configuration (an edge length that is a positive integer below
  \<open>2 ^ 53\<close>, a padding that is not negative, a positive content size) the renderer takes
  \<open>paddingPixels = Math.round((edgeLength * paddingPercent) / 100)\<close>, product and quotient
  being those of doubles, asks for a resize to \<open>contentSize x contentSize\<close> with
  \<open>contentSize = edgeLength - 2 * paddingPixels\<close>, and for an extension by \<open>paddingPixels\<close>
  on each of the four sides with a background of alpha 0, so that the canvas is
  \<open>edgeLength x edgeLength\<close>.
\<close>

theorem render_canvas_is_edge:
  assumes "0 < s" and "s < 2 ^ 53" and "0 \<le> pad" and "0 < contentSize s pad"
  shows "\<exists>obj e. createRoundedImage input s pad = Inr obj
     \<and> paddingPixels s pad = \<lfloor>double (double (double (of_int s) * double pad) / 100) + 1 / 2\<rfloor>
     \<and> 0 \<le> paddingPixels s pad
     \<and> contentSize s pad = s - 2 * paddingPixels s pad
     \<and> sharp_input obj = input
     \<and> resize_dims obj = Some (s - 2 * paddingPixels s pad, s - 2 * paddingPixels s pad)
     \<and> extend_by obj = Some e
     \<and> ext_top e = paddingPixels s pad \<and> ext_bottom e = paddingPixels s pad
     \<and> ext_left e = paddingPixels s pad \<and> ext_right e = paddingPixels s pad
     \<and> ext_background e = \<lparr>rgba_r = 0, rgba_g = 0, rgba_b = 0, rgba_alpha = 0\<rparr>
     \<and> canvas_size obj = Some (s, s)"
proof -
  have p: "0 \<le> paddingPixels s pad"
    using assms by (intro paddingPixels_nonneg) simp_all
  have c: "contentSize s pad = s - 2 * paddingPixels s pad"
    using contentSize_exact [OF assms(1) assms(2) p assms(4)] by simp
  have f: "paddingPixels s pad = \<lfloor>double (double (double (of_int s) * double pad) / 100) + 1 / 2\<rfloor>"
    by (simp add: paddingPixels_def Math_round_def)
  note r = createRoundedImage_ok [OF assms(4) p, of input]
  have k: "canvas_size \<lparr>sharp_input = input, resize_dims = Some (contentSize s pad, contentSize s pad),
            resize_fit = Cover,
            extend_by = Some \<lparr>ext_top = paddingPixels s pad, ext_bottom = paddingPixels s pad,
              ext_left = paddingPixels s pad, ext_right = paddingPixels s pad,
              ext_background = \<lparr>rgba_r = 0, rgba_g = 0, rgba_b = 0, rgba_alpha = 0\<rparr>\<rparr>,
            composite_layers = [(svg s pad, DestIn)], to_format = Some Png\<rparr> = Some (s, s)"
    by (simp add: canvas_size_def c)
  show ?thesis
    unfolding r using p c f k by simp
qed

theorem render_canvas_is_edge_witness:
  "(0 :: int) < 375 \<and> (375 :: int) < 2 ^ 53 \<and> (0 :: real) \<le> 92 / 10 \<and> 0 < contentSize 375 (92 / 10)
   \<and> paddingPixels 375 (92 / 10) = 34 \<and> contentSize 375 (92 / 10) = 307
   \<and> (\<exists>obj e. createRoundedImage ''icon.png'' 375 (92 / 10) = Inr obj
        \<and> resize_dims obj = Some (307, 307) \<and> extend_by obj = Some e
        \<and> ext_top e = 34 \<and> ext_bottom e = 34 \<and> ext_left e = 34 \<and> ext_right e = 34
        \<and> rgba_alpha (ext_background e) = 0
        \<and> canvas_size obj = Some (375, 375))"
proof -
  have h: "0 < contentSize 375 (92 / 10)"
    by (simp add: contentSize_rounding)
  have "\<exists>obj e. createRoundedImage ''icon.png'' 375 (92 / 10) = Inr obj
        \<and> resize_dims obj = Some (307, 307) \<and> extend_by obj = Some e
        \<and> ext_top e = 34 \<and> ext_bottom e = 34 \<and> ext_left e = 34 \<and> ext_right e = 34
        \<and> rgba_alpha (ext_background e) = 0
        \<and> canvas_size obj = Some (375, 375)"
    using render_canvas_is_edge [of 375 "92 / 10" "''icon.png''"] h
    by (auto simp add: paddingPixels_rounding)
  then show ?thesis
    by (simp add: contentSize_rounding paddingPixels_rounding)
qed

lemma svg_fields:
  "rect_x (svg_shape (svg s pad)) = paddingPixels s pad"
  "rect_y (svg_shape (svg s pad)) = paddingPixels s pad"
  "rect_width (svg_shape (svg s pad)) = contentSize s pad"
  "rect_height (svg_shape (svg s pad)) = contentSize s pad"
  "rect_rx (svg_shape (svg s pad)) = double (of_int (contentSize s pad) * double (2 / 10))"
  "rect_ry (svg_shape (svg s pad)) = double (of_int (contentSize s pad) * double (2 / 10))"
  "svg_width (svg s pad) = s" "svg_height (svg s pad) = s"
  by (simp_all add: svg_def radius_def)

text \<open>
  Claim C5. For a valid configuration the mask is one rectangle on a canvas of the edge
  length, at \<open>(paddingPixels, paddingPixels)\<close>, of width and height
  \<open>contentSize = edgeLength - 2 * paddingPixels\<close> and of corner radius \<open>contentSize * 0.2\<close>,
  the product of doubles. With padding 0 the rectangle starts at \<open>(0, 0)\<close> and has the
  width and height of the canvas, so it reaches all four edges.
\<close>

theorem mask_geometry:
  assumes "0 < s" and "s < 2 ^ 53" and "0 \<le> pad" and "0 < contentSize s pad"
  shows "\<exists>obj m. createRoundedImage input s pad = Inr obj
     \<and> composite_layers obj = [(m, DestIn)]
     \<and> svg_width m = s \<and> svg_height m = s
     \<and> rect_x (svg_shape m) = \<lfloor>double (double (double (of_int s) * double pad) / 100) + 1 / 2\<rfloor>
     \<and> rect_y (svg_shape m) = rect_x (svg_shape m)
     \<and> rect_width (svg_shape m) = s - 2 * rect_x (svg_shape m)
     \<and> rect_height (svg_shape m) = rect_width (svg_shape m)
     \<and> rect_width (svg_shape m) = contentSize s pad
     \<and> rect_rx (svg_shape m) = double (of_int (rect_width (svg_shape m)) * double (2 / 10))
     \<and> rect_ry (svg_shape m) = rect_rx (svg_shape m)
     \<and> (pad = 0 \<longrightarrow> rect_x (svg_shape m) = 0 \<and> rect_y (svg_shape m) = 0
           \<and> rect_width (svg_shape m) = svg_width m
           \<and> rect_height (svg_shape m) = svg_height m)"
proof -
  have p: "0 \<le> paddingPixels s pad"
    using assms by (intro paddingPixels_nonneg) simp_all
  have c: "contentSize s pad = s - 2 * paddingPixels s pad"
    using contentSize_exact [OF assms(1) assms(2) p assms(4)] by simp
  have f: "paddingPixels s pad = \<lfloor>double (double (double (of_int s) * double pad) / 100) + 1 / 2\<rfloor>"
    by (simp add: paddingPixels_def Math_round_def)
  have z: "pad = 0 \<longrightarrow> paddingPixels s pad = 0"
    by (simp add: paddingPixels_zero)
  note r = createRoundedImage_ok [OF assms(4) p, of input]
  have w: "pad = 0 \<longrightarrow> contentSize s pad = s"
    using z c by auto
  show ?thesis
    unfolding r using z w c f by (auto simp add: svg_fields)
qed

theorem mask_geometry_witness:
  "(0 :: int) < 16 \<and> (16 :: int) < 2 ^ 53 \<and> (0 :: real) \<le> 875 / 100 \<and> 0 < contentSize 16 (875 / 100)
   \<and> (\<exists>obj m. createRoundedImage ''icon.png'' 16 (875 / 100) = Inr obj
        \<and> composite_layers obj = [(m, DestIn)] \<and> svg_width m = 16 \<and> svg_height m = 16
        \<and> rect_x (svg_shape m) = 1 \<and> rect_y (svg_shape m) = 1
        \<and> rect_width (svg_shape m) = 14 \<and> rect_height (svg_shape m) = 14
        \<and> rect_rx (svg_shape m) = 6305039478318695 / 2 ^ 51
        \<and> rect_rx (svg_shape m) = double (28000000000000003 / 10 ^ 16)
        \<and> rect_ry (svg_shape m) = rect_rx (svg_shape m))
   \<and> (\<exists>obj m. createRoundedImage ''icon.png'' 16 0 = Inr obj
        \<and> composite_layers obj = [(m, DestIn)] \<and> svg_width m = 16 \<and> svg_height m = 16
        \<and> rect_x (svg_shape m) = 0 \<and> rect_y (svg_shape m) = 0
        \<and> rect_width (svg_shape m) = 16 \<and> rect_height (svg_shape m) = 16)"
proof -
  have h: "0 < contentSize 16 (875 / 100)"
    by (simp add: contentSize_default)
  have h0: "0 < contentSize 16 0"
    by (simp add: contentSize_zero)
  have x: "\<lfloor>double (double (double (of_int 16) * double (875 / 100)) / 100) + 1 / 2\<rfloor> = 1"
    using paddingPixels_default(1) by (simp add: paddingPixels_def Math_round_def)
  have y: "double (of_int 14 * double (2 / 10)) = 6305039478318695 / 2 ^ 51"
    by (simp add: double_eval)
  from mask_geometry [of 16 "875 / 100" "''icon.png''"] h
  obtain obj m where o: "createRoundedImage ''icon.png'' 16 (875 / 100) = Inr obj"
    "composite_layers obj = [(m, DestIn)]" "svg_width m = 16" "svg_height m = 16"
    "rect_x (svg_shape m) = \<lfloor>double (double (double (of_int 16) * double (875 / 100)) / 100) + 1 / 2\<rfloor>"
    "rect_y (svg_shape m) = rect_x (svg_shape m)"
    "rect_width (svg_shape m) = 16 - 2 * rect_x (svg_shape m)"
    "rect_height (svg_shape m) = rect_width (svg_shape m)"
    "rect_rx (svg_shape m) = double (of_int (rect_width (svg_shape m)) * double (2 / 10))"
    "rect_ry (svg_shape m) = rect_rx (svg_shape m)"
    by auto
  have x1: "rect_x (svg_shape m) = 1"
    using o(5) x by simp
  have w1: "rect_width (svg_shape m) = 14"
    using o(7) x1 by simp
  have r1: "rect_rx (svg_shape m) = 6305039478318695 / 2 ^ 51"
    using o(9) w1 y by simp
  have a: "\<exists>obj m. createRoundedImage ''icon.png'' 16 (875 / 100) = Inr obj
        \<and> composite_layers obj = [(m, DestIn)] \<and> svg_width m = 16 \<and> svg_height m = 16
        \<and> rect_x (svg_shape m) = 1 \<and> rect_y (svg_shape m) = 1
        \<and> rect_width (svg_shape m) = 14 \<and> rect_height (svg_shape m) = 14
        \<and> rect_rx (svg_shape m) = 6305039478318695 / 2 ^ 51
        \<and> rect_rx (svg_shape m) = double (28000000000000003 / 10 ^ 16)
        \<and> rect_ry (svg_shape m) = rect_rx (svg_shape m)"
    using o(1) o(2) o(3) o(4) o(6) o(8) o(10) x1 w1 r1 radius_16_default_text(1)
    by (intro exI [of _ obj] exI [of _ m]) (simp only: simp_thms)
  have b: "\<exists>obj m. createRoundedImage ''icon.png'' 16 0 = Inr obj
        \<and> composite_layers obj = [(m, DestIn)] \<and> svg_width m = 16 \<and> svg_height m = 16
        \<and> rect_x (svg_shape m) = 0 \<and> rect_y (svg_shape m) = 0
        \<and> rect_width (svg_shape m) = 16 \<and> rect_height (svg_shape m) = 16"
    using mask_geometry [of 16 0 "''icon.png''"] h0 by auto
  from a b h show ?thesis
    by simp
qed

lemma cover_scale:
  assumes "0 < c" and "0 < sw" and "0 < sh"
  shows "max (real_of_int c / of_int sw) (of_int c / of_int sh) = of_int c / of_int (min sw sh)"
proof (cases "sw \<le> sh")
  case True
  then have "real_of_int c / of_int sh \<le> of_int c / of_int sw"
    using assms by (intro divide_left_mono) simp_all
  then show ?thesis
    using True by (simp add: max_def min_def)
next
  case False
  then have "real_of_int c / of_int sw \<le> of_int c / of_int sh"
    using assms by (intro divide_left_mono) simp_all
  then show ?thesis
    using False by (simp add: max_def min_def)
qed

lemma cover_square:
  assumes "0 < c" and "0 < sw" and "0 < sh"
  shows "resize_scale Cover (sw, sh) (c, c) =
           (of_int c / of_int (min sw sh), of_int c / of_int (min sw sh))"
    and "source_shown Cover (sw, sh) (c, c) = (of_int (min sw sh), of_int (min sw sh))"
proof -
  show a: "resize_scale Cover (sw, sh) (c, c) =
           (of_int c / of_int (min sw sh), of_int c / of_int (min sw sh))"
    using cover_scale [OF assms] by (simp add: resize_scale_def)
  show "source_shown Cover (sw, sh) (c, c) = (of_int (min sw sh), of_int (min sw sh))"
    using assms by (simp add: source_shown_def a)
qed

text \<open>
  Claim C6, as stated: the resize step scales the source to the square target without
  cropping and without keeping its aspect ratio, so that all of the source is mapped onto
  the target. The source calls \<^verbatim>\<open>resize\<close> with a width and a height and no fit, so the
  library's default applies, which is \<^verbatim>\<open>cover\<close> and not \<^verbatim>\<open>fill\<close>. For the first entry of
  a default run the target is 14 x 14; a source of 200 x 100 pixels is scaled by the same
  factor 7/50 on both axes, and only a part of 100 x 100 of its pixels reaches the target.
\<close>

theorem resize_full_source_counterexample:
  "map_sum id resize_dims (createRoundedImage ''icon.png'' 16 (875 / 100)) = Inr (Some (14, 14))
   \<and> map_sum id resize_fit (createRoundedImage ''icon.png'' 16 (875 / 100)) = Inr Cover
   \<and> map_sum id (\<lambda>obj. resize_scale (resize_fit obj) (200, 100) (14, 14))
        (createRoundedImage ''icon.png'' 16 (875 / 100)) = Inr (7 / 50, 7 / 50)
   \<and> map_sum id (\<lambda>obj. source_shown (resize_fit obj) (200, 100) (14, 14))
        (createRoundedImage ''icon.png'' 16 (875 / 100)) = Inr (100, 100)"
proof -
  have r: "createRoundedImage ''icon.png'' 16 (35 / 4) =
       Inr \<lparr>sharp_input = ''icon.png'', resize_dims = Some (14, 14), resize_fit = Cover,
            extend_by = Some \<lparr>ext_top = 1, ext_bottom = 1, ext_left = 1, ext_right = 1,
              ext_background = \<lparr>rgba_r = 0, rgba_g = 0, rgba_b = 0, rgba_alpha = 0\<rparr>\<rparr>,
            composite_layers = [(svg 16 (35 / 4), DestIn)], to_format = Some Png\<rparr>"
    using createRoundedImage_ok [of 16 "35 / 4" "''icon.png''"]
    by (simp add: contentSize_default paddingPixels_default)
  show ?thesis
    by (simp add: r resize_scale_def source_shown_def Let_def)
qed

text \<open>
  Claim C6, amended: for a valid configuration the resize step asks for
  \<open>contentSize x contentSize\<close> with the fit \<^verbatim>\<open>cover\<close>. A source of \<open>sw x sh\<close> pixels keeps
  its aspect ratio: both axes are scaled by \<open>contentSize / min sw sh\<close>, and the part of the
  source that reaches the target is a square of \<open>min sw sh\<close> pixels. All of the source is
  mapped onto the target exactly when the source is square.
\<close>

theorem resize_covers:
  assumes "0 < s" and "0 \<le> pad" and "0 < contentSize s pad" and "0 < sw" and "0 < sh"
  shows "\<exists>obj. createRoundedImage input s pad = Inr obj
     \<and> resize_dims obj = Some (contentSize s pad, contentSize s pad)
     \<and> resize_fit obj = Cover
     \<and> resize_scale (resize_fit obj) (sw, sh) (contentSize s pad, contentSize s pad) =
         (of_int (contentSize s pad) / of_int (min sw sh),
          of_int (contentSize s pad) / of_int (min sw sh))
     \<and> source_shown (resize_fit obj) (sw, sh) (contentSize s pad, contentSize s pad) =
         (of_int (min sw sh), of_int (min sw sh))
     \<and> (source_shown (resize_fit obj) (sw, sh) (contentSize s pad, contentSize s pad) =
           (of_int sw, of_int sh) \<longleftrightarrow> sw = sh)"
proof -
  have p: "0 \<le> paddingPixels s pad"
    using assms by (intro paddingPixels_nonneg) simp_all
  note r = createRoundedImage_ok [OF assms(3) p, of input]
  note k = cover_square [OF assms(3) assms(4) assms(5)]
  have q: "(real_of_int (min sw sh) = of_int sw \<and> real_of_int (min sw sh) = of_int sh) \<longleftrightarrow> sw = sh"
    by (auto simp add: min_def)
  show ?thesis
    unfolding r using q by (simp add: k)
qed

theorem resize_covers_witness:
  "(0 :: int) < 16 \<and> (0 :: real) \<le> 875 / 100 \<and> 0 < contentSize 16 (875 / 100)
   \<and> (\<exists>obj. createRoundedImage ''icon.png'' 16 (875 / 100) = Inr obj
        \<and> resize_dims obj = Some (14, 14) \<and> resize_fit obj = Cover
        \<and> resize_scale (resize_fit obj) (200, 100) (14, 14) = (7 / 50, 7 / 50)
        \<and> source_shown (resize_fit obj) (200, 100) (14, 14) = (100, 100))
   \<and> (\<exists>obj. createRoundedImage ''icon.png'' 16 (875 / 100) = Inr obj
        \<and> resize_scale (resize_fit obj) (512, 512) (14, 14) = (7 / 256, 7 / 256)
        \<and> source_shown (resize_fit obj) (512, 512) (14, 14) = (512, 512))"
proof -
  have h: "0 < contentSize 16 (875 / 100)"
    by (simp add: contentSize_default)
  have a: "\<exists>obj. createRoundedImage ''icon.png'' 16 (875 / 100) = Inr obj
        \<and> resize_dims obj = Some (14, 14) \<and> resize_fit obj = Cover
        \<and> resize_scale (resize_fit obj) (200, 100) (14, 14) = (7 / 50, 7 / 50)
        \<and> source_shown (resize_fit obj) (200, 100) (14, 14) = (100, 100)"
    using resize_covers [of 16 "875 / 100" 200 100 "''icon.png''"] h
    by (auto simp add: contentSize_default)
  have b: "\<exists>obj. createRoundedImage ''icon.png'' 16 (875 / 100) = Inr obj
        \<and> resize_scale (resize_fit obj) (512, 512) (14, 14) = (7 / 256, 7 / 256)
        \<and> source_shown (resize_fit obj) (512, 512) (14, 14) = (512, 512)"
    using resize_covers [of 16 "875 / 100" 512 512 "''icon.png''"] h
    by (auto simp add: contentSize_default)
  from a b h show ?thesis
    by simp
qed

text \<open>
  Claim C9. In a default run the padding is 8.75, and for each of the 14 entries of the
  size table the content size is positive: the resize step of a default run never gets a
  dimension that is zero or negative.
\<close>

theorem default_contentSize_positive:
  "padding (config_of e no_options) = 875 / 100
   \<and> map (\<lambda>sz. contentSize (edge sz) (padding (config_of e no_options))) allSizes =
       [14, 26, 26, 52, 52, 106, 106, 212, 212, 422, 422, 844, 844, 1690]
   \<and> (\<forall>sz \<in> set allSizes. 0 < contentSize (edge sz) (padding (config_of e no_options)))"
proof -
  have p: "padding (config_of e no_options) = 35 / 4"
    by (simp add: config_of_def merge_def or_default_def no_options_def defaultConfig_def)
  show ?thesis
    unfolding p by (simp add: allSizes_list contentSize_default)
qed

theorem default_contentSize_positive_witness:
  "\<lparr>name = ''icon_1024x1024@2x.png'', edge = 2048\<rparr> \<in> set allSizes
   \<and> 0 < contentSize 2048 (padding (config_of example_env no_options))"
proof -
  have m: "\<lparr>name = ''icon_1024x1024@2x.png'', edge = 2048\<rparr> \<in> set allSizes"
    by (simp add: allSizes_list)
  from default_contentSize_positive [of example_env] m
  have "0 < contentSize (edge \<lparr>name = ''icon_1024x1024@2x.png'', edge = 2048\<rparr>)
          (padding (config_of example_env no_options))"
    by blast
  with m show ?thesis by simp
qed

section \<open>Paths and file names\<close>

lemma split_slash_no_slash: "CHR ''/'' \<notin> set n \<Longrightarrow> split_slash n = [n]"
  by (induction n) auto

lemma path_join_simple: "simple_name n \<Longrightarrow> path_join p n = p @ [n]"
  by (simp add: simple_name_def path_join_def split_slash_no_slash seg_step_def)

lemma path_resolve_icons: "path_resolve p ''icons'' = p @ [''icons'']"
  by (simp add: path_resolve_def isAbsolute_def seg_step_def)

lemma plainDir_of_eq: "plainDir_of e opts = outputDirPath_of e opts @ [''icons'']"
  by (simp add: plainDir_of_def path_resolve_icons)

lemma strip_names:
  "map (\<lambda>sz. strip_icon_prefix (name sz)) allSizes =
     [''16x16.png'', ''16x16@2x.png'', ''32x32.png'', ''32x32@2x.png'', ''64x64.png'',
      ''64x64@2x.png'', ''128x128.png'', ''128x128@2x.png'', ''256x256.png'',
      ''256x256@2x.png'', ''512x512.png'', ''512x512@2x.png'', ''1024x1024.png'',
      ''1024x1024@2x.png'']"
  by (simp add: allSizes_list strip_icon_prefix_def)

lemma allSizes_simple: "sz \<in> set allSizes \<Longrightarrow> simple_name (name sz)"
  by (auto simp add: allSizes_list simple_name_def)

lemma allSizes_strip_simple: "sz \<in> set allSizes \<Longrightarrow> simple_name (strip_icon_prefix (name sz))"
  by (auto simp add: allSizes_list simple_name_def strip_icon_prefix_def)

lemma allSizes_strip_distinct: "distinct (map (\<lambda>sz. strip_icon_prefix (name sz)) allSizes)"
  by (simp add: strip_names)

lemma allSizes_not_icons: "sz \<in> set allSizes \<Longrightarrow> name sz \<noteq> ''icons''"
  by (auto simp add: allSizes_list)

section \<open>Steps on the filesystem\<close>

lemma bind_io_assoc: "bind_io (bind_io m f) g = bind_io m (\<lambda>x. bind_io (f x) g)"
  by (rule ext) (simp add: bind_io_def split: prod.splits sum.splits)

lemma bind_io_fail: "m s = (Inl err, s1) \<Longrightarrow> bind_io m f s = (Inl err, s1)"
  by (simp add: bind_io_def)

lemma bind_io_ok: "m s = (Inr x, s1) \<Longrightarrow> bind_io m f s = f x s1"
  by (simp add: bind_io_def)

lemma is_file_iff: "is_file s p \<longleftrightarrow> p \<noteq> [] \<and> (\<exists>c. s p = Some (File c))"
  by (auto simp add: is_file_def split: option.splits node.splits)

lemma write_file_ok:
  assumes "is_dir s (butlast p)" and "p \<noteq> []" and "s p \<noteq> Some Dir"
  shows "write_file p bytes s = (Inr (), s(p \<mapsto> File bytes))"
  using assms by (simp add: write_file_def is_dir_def)

lemma copyFile_ok:
  assumes "is_file s src" and "is_dir s (butlast dest)" and "dest \<noteq> []" and "s dest \<noteq> Some Dir"
  shows "\<exists>c. s src = Some (File c) \<and> copyFile src dest s = (Inr (), s(dest \<mapsto> File c))"
  using assms by (auto simp add: copyFile_def is_file_iff write_file_ok)

lemma reset_dir:
  assumes "p \<noteq> []" and "is_dir s (butlast p)"
  shows "bind_io (remove p) (\<lambda>_. mkdir p) s =
     (Inr (), (\<lambda>q. if prefix p q then None else s q)(p \<mapsto> Dir))"
proof -
  have "\<not> prefix p (butlast p)"
    using assms(1) by (metis append_butlast_last_id prefix_order.dual_order.eq_iff prefixI
        prefix_length_le length_butlast diff_less length_greater_0_conv less_one not_less)
  then show ?thesis
    using assms
    by (auto simp add: bind_io_def remove_def mkdir_def existsSync_def is_dir_def)
qed

lemma ensure_dir_keeps:
  assumes "ensure_dir p s = (res, s1)"
  shows "(\<forall>q. s q \<noteq> None \<longrightarrow> s1 q = s q)
     \<and> (\<forall>q. s q = None \<and> s1 q \<noteq> None \<longrightarrow> s1 q = Some Dir \<and> prefix q p)"
  using assms by (auto simp add: ensure_dir_def mkdir_recursive_def split: if_splits)

section \<open>Validation of the input\<close>

lemma generateIconset_ensure_fails:
  assumes "ensure_dir (outputDirPath_of e opts) s = (Inl err, s1)"
  shows "generateIconset e opts s = (Inl err, s1)"
  using assms
  by (simp add: generateIconset_def Let_def bind_io_def outputDirPath_of_def config_of_def)

lemma generateIconset_missing:
  assumes "ensure_dir (outputDirPath_of e opts) s = (Inr (), s1)"
    and "\<not> existsSync s1 (inputPath_of e opts)"
  shows "generateIconset e opts s =
     (Inl (Error (''Input file does not exist: '' @ path_string (inputPath_of e opts))), s1)"
  using assms
  by (simp add: generateIconset_def Let_def bind_io_def outputDirPath_of_def inputPath_of_def
      config_of_def)

lemma generateIconset_unsupported:
  assumes "ensure_dir (outputDirPath_of e opts) s = (Inr (), s1)"
    and "existsSync s1 (inputPath_of e opts)"
    and "\<not> isSupportedFormat (path_string (inputPath_of e opts)) (supportedFormats (config_of e opts))"
  shows "generateIconset e opts s =
     (Inl (Error (unsupported_message (extname (path_string (inputPath_of e opts)))
        (supportedFormats (config_of e opts)))), s1)"
  using assms
  by (simp add: generateIconset_def Let_def bind_io_def outputDirPath_of_def inputPath_of_def
      config_of_def)

lemma generateIconset_supported:
  assumes "ensure_dir (outputDirPath_of e opts) s = (Inr (), s1)"
    and "existsSync s1 (inputPath_of e opts)"
    and "isSupportedFormat (path_string (inputPath_of e opts)) (supportedFormats (config_of e opts))"
  shows "generateIconset e opts s =
     bind_io (remove (iconsetPath_of e opts))
       (\<lambda>_. bind_io (mkdir (iconsetPath_of e opts))
       (\<lambda>_. bind_io (renderAll e (iconsetPath_of e opts) (inputPath_of e opts)
                (padding (config_of e opts)) allSizes)
       (\<lambda>_. return_io (iconsetPath_of e opts)))) s1"
  using assms
  by (simp add: generateIconset_def Let_def bind_io_def outputDirPath_of_def inputPath_of_def
      iconsetPath_of_def config_of_def)

lemmas path_defs = path_resolve_def path_join_def seg_step_def isAbsolute_def path_string_def

lemmas cfg_defs = config_of_def merge_def or_default_def no_options_def defaultConfig_def
  inputPath_of_def outputDirPath_of_def iconsetPath_of_def outputPath_of_def plainDir_of_def

lemma ex_paths:
  "inputPath_of example_env xyz_options = [''w'', ''icon.xyz'']"
  "inputPath_of example_env missing_options = [''w'', ''missing.xyz'']"
  "outputDirPath_of example_env xyz_options = [''w'', ''output'']"
  "outputDirPath_of example_env missing_options = [''w'', ''output'']"
  by (simp_all add: cfg_defs path_defs example_env_def xyz_options_def missing_options_def)

lemma ex_formats:
  "supportedFormats (config_of example_env xyz_options) = defaultFormats"
  "supportedFormats (config_of example_env missing_options) = defaultFormats"
  by (simp_all add: cfg_defs xyz_options_def missing_options_def)

lemma ex_strings: "path_string [''w'', ''icon.xyz''] = ''/w/icon.xyz''"
  "path_string [''w'', ''missing.xyz''] = ''/w/missing.xyz''"
  by (simp_all add: path_string_def)

lemma ex_ext: "extname ''/w/icon.xyz'' = ''.xyz''" "extname ''/w/missing.xyz'' = ''.xyz''"
  by (simp_all add: extname_def extname_base_def)

lemma ex_notsup: "\<not> isSupportedFormat ''/w/icon.xyz'' defaultFormats"
  "\<not> isSupportedFormat ''/w/missing.xyz'' defaultFormats"
  by (simp_all add: isSupportedFormat_def ex_ext toLowerCase_def toLowerCase_char_def defaultFormats_def)

lemma ex_ensure: "ensure_dir [''w'', ''output''] example_fs = (Inr (), example_fs([''w'', ''output''] \<mapsto> Dir))"
  apply (simp add: ensure_dir_def mkdir_recursive_def existsSync_def is_file_def example_fs_def)
  apply (rule ext)
  apply (auto simp add: prefix_Cons split: list.splits)
  done

lemma example_run_xyz:
  "generateIconset example_env xyz_options example_fs =
     (Inl (Error (unsupported_message ''.xyz'' defaultFormats)), example_fs([''w'', ''output''] \<mapsto> Dir))"
proof -
  have e: "ensure_dir (outputDirPath_of example_env xyz_options) example_fs =
      (Inr (), example_fs([''w'', ''output''] \<mapsto> Dir))"
    by (simp add: ex_paths ex_ensure)
  have x: "existsSync (example_fs([''w'', ''output''] \<mapsto> Dir)) (inputPath_of example_env xyz_options)"
    by (simp add: ex_paths existsSync_def example_fs_def)
  have n: "\<not> isSupportedFormat (path_string (inputPath_of example_env xyz_options))
      (supportedFormats (config_of example_env xyz_options))"
    by (simp add: ex_paths ex_formats ex_strings ex_notsup)
  from generateIconset_unsupported [OF e x n] show ?thesis
    by (simp add: ex_paths ex_formats ex_strings ex_ext)
qed

lemma example_run_missing:
  "generateIconset example_env missing_options example_fs =
     (Inl (Error ''Input file does not exist: /w/missing.xyz''), example_fs([''w'', ''output''] \<mapsto> Dir))"
proof -
  have e: "ensure_dir (outputDirPath_of example_env missing_options) example_fs =
      (Inr (), example_fs([''w'', ''output''] \<mapsto> Dir))"
    by (simp add: ex_paths ex_ensure)
  have x: "\<not> existsSync (example_fs([''w'', ''output''] \<mapsto> Dir)) (inputPath_of example_env missing_options)"
    by (simp add: ex_paths existsSync_def example_fs_def)
  from generateIconset_missing [OF e x] show ?thesis
    by (simp add: ex_paths ex_strings)
qed

text \<open>
  Claim C2, as stated: a call of \<^verbatim>\<open>generateIconset\<close> whose input path has an unsupported
  extension fails before any directory is created. In the example the input is
  \<^verbatim>\<open>/w/icon.xyz\<close> and \<^verbatim>\<open>/w/output\<close> does not exist: the call fails, and it has created
  \<^verbatim>\<open>/w/output\<close>.
\<close>

theorem unsupported_creates_output_dir_counterexample:
  "\<not> isSupportedFormat (path_string (inputPath_of example_env xyz_options))
       (supportedFormats (config_of example_env xyz_options))
   \<and> isl (fst (generateIconset example_env xyz_options example_fs))
   \<and> example_fs [''w'', ''output''] = None
   \<and> snd (generateIconset example_env xyz_options example_fs) [''w'', ''output''] = Some Dir"
  by (simp add: example_run_xyz ex_paths ex_formats ex_strings ex_notsup)
     (simp add: example_fs_def)

text \<open>
  Claim C2, amended: a call of \<^verbatim>\<open>generateIconset\<close> whose input path has an unsupported
  extension fails; unless the creation of the output directory itself fails, the error is
  one of the two input errors. The failing call removes and changes no entry of the
  filesystem: all it may add are directories on the way to the output directory (the
  output directory and its missing ancestors), so the staging directory is not touched.
\<close>

theorem unsupported_fails_early:
  assumes "\<not> isSupportedFormat (path_string (inputPath_of e opts)) (supportedFormats (config_of e opts))"
  shows "\<exists>err s1. generateIconset e opts s = (Inl err, s1)
     \<and> (ensure_dir (outputDirPath_of e opts) s = (Inl err, s1)
         \<or> ensure_dir (outputDirPath_of e opts) s = (Inr (), s1)
           \<and> (err = Error (''Input file does not exist: '' @ path_string (inputPath_of e opts))
              \<or> err = Error (unsupported_message (extname (path_string (inputPath_of e opts)))
                          (supportedFormats (config_of e opts)))))
     \<and> (\<forall>q. s q \<noteq> None \<longrightarrow> s1 q = s q)
     \<and> (\<forall>q. s q = None \<and> s1 q \<noteq> None \<longrightarrow> s1 q = Some Dir \<and> prefix q (outputDirPath_of e opts))"
proof -
  obtain res s1 where en: "ensure_dir (outputDirPath_of e opts) s = (res, s1)"
    by (cases "ensure_dir (outputDirPath_of e opts) s") blast
  note keeps = ensure_dir_keeps [OF en]
  show ?thesis
  proof (cases res)
    case (Inl err)
    with en generateIconset_ensure_fails [of e opts s err s1] keeps show ?thesis
      by blast
  next
    case (Inr u)
    then have ok: "ensure_dir (outputDirPath_of e opts) s = (Inr (), s1)"
      using en by simp
    show ?thesis
    proof (cases "existsSync s1 (inputPath_of e opts)")
      case True
      from generateIconset_unsupported [OF ok True assms] ok keeps show ?thesis
        by blast
    next
      case False
      from generateIconset_missing [OF ok False] ok keeps show ?thesis
        by blast
    qed
  qed
qed

theorem unsupported_fails_early_witness:
  "\<not> isSupportedFormat (path_string (inputPath_of example_env xyz_options))
       (supportedFormats (config_of example_env xyz_options))
   \<and> (\<exists>err s1. generateIconset example_env xyz_options example_fs = (Inl err, s1)
        \<and> s1 [''w'', ''icon.xyz''] = Some (File ''source'')
        \<and> s1 [''w'', ''output'', ''icon.iconset''] = None)"
proof -
  have n: "\<not> isSupportedFormat (path_string (inputPath_of example_env xyz_options))
       (supportedFormats (config_of example_env xyz_options))"
    by (simp add: ex_paths ex_formats ex_strings ex_notsup)
  from unsupported_fails_early [OF n, of example_fs]
  obtain err s1 where r: "generateIconset example_env xyz_options example_fs = (Inl err, s1)"
    and k: "\<forall>q. example_fs q \<noteq> None \<longrightarrow> s1 q = example_fs q"
    and a: "\<forall>q. example_fs q = None \<and> s1 q \<noteq> None \<longrightarrow>
              s1 q = Some Dir \<and> prefix q (outputDirPath_of example_env xyz_options)"
    by blast
  have f: "example_fs [''w'', ''icon.xyz''] = Some (File ''source'')"
    by (simp add: example_fs_def)
  have g: "example_fs [''w'', ''output'', ''icon.iconset''] = None"
    by (simp add: example_fs_def)
  have "s1 [''w'', ''icon.xyz''] = Some (File ''source'')"
    using k f by simp
  moreover have "s1 [''w'', ''output'', ''icon.iconset''] = None"
    using a g by (auto simp add: ex_paths)
  ultimately show ?thesis
    using n r by blast
qed







lemma isSupportedFormat_capitals: "isSupportedFormat ''/w/ICON.PNG'' defaultFormats"
  by (simp add: isSupportedFormat_def extname_def extname_base_def toLowerCase_def
      toLowerCase_char_def defaultFormats_def)



section \<open>Staging the images\<close>

lemma toFile_result:
  assumes "toFile e obj out s = (Inr (), s1)"
  shows "\<exists>bytes. render e obj s = Inr bytes \<and> s1 = s(out \<mapsto> File bytes)"
  using assms
  by (auto simp add: toFile_def write_file_def split: sum.splits if_splits)

lemma renderAll_step:
  assumes "renderAll e isp inp pad (sz # rest) s = (Inr (), s')"
  shows "\<exists>obj bytes. createRoundedImage (path_string inp) (edge sz) pad = Inr obj
     \<and> render e obj s = Inr bytes
     \<and> renderAll e isp inp pad rest (s(path_join isp (name sz) \<mapsto> File bytes)) = (Inr (), s')"
proof -
  from assms obtain obj s1
    where o: "createRoundedImage (path_string inp) (edge sz) pad = Inr obj"
    and t: "toFile e obj (path_join isp (name sz)) s = (Inr (), s1)"
    and r: "renderAll e isp inp pad rest s1 = (Inr (), s')"
    by (auto simp add: Let_def bind_io_def split: prod.splits sum.splits)
  from toFile_result [OF t] o r show ?thesis by auto
qed

lemma renderAll_files:
  assumes "renderAll e isp inp pad szs s = (Inr (), s')"
    and "\<forall>sz\<in>set szs. simple_name (name sz)"
  shows "(\<forall>sz\<in>set szs. is_file s' (isp @ [name sz]))
     \<and> (\<forall>q. is_file s q \<longrightarrow> is_file s' q)
     \<and> (\<forall>q. q \<notin> (\<lambda>sz. isp @ [name sz]) ` set szs \<longrightarrow> s' q = s q)"
  using assms
proof (induction szs arbitrary: s)
  case Nil
  then show ?case by (simp add: return_io_def)
next
  case (Cons sz rest)
  have j: "path_join isp (name sz) = isp @ [name sz]"
    using Cons.prems(2) by (simp add: path_join_simple)
  from renderAll_step [OF Cons.prems(1)] obtain bytes
    where r: "renderAll e isp inp pad rest (s(isp @ [name sz] \<mapsto> File bytes)) = (Inr (), s')"
    by (auto simp add: j)
  let ?s1 = "s(isp @ [name sz] \<mapsto> File bytes)"
  have p2: "\<forall>sz\<in>set rest. simple_name (name sz)"
    using Cons.prems(2) by simp
  from Cons.IH [OF r p2]
  have i1: "\<forall>sz\<in>set rest. is_file s' (isp @ [name sz])"
    and i2: "\<forall>q. is_file ?s1 q \<longrightarrow> is_file s' q"
    and i3: "\<forall>q. q \<notin> (\<lambda>sz. isp @ [name sz]) ` set rest \<longrightarrow> s' q = ?s1 q"
    by blast+
  have k: "\<forall>q. is_file s q \<longrightarrow> is_file ?s1 q"
    by (simp add: is_file_iff)
  have h: "is_file ?s1 (isp @ [name sz])"
    by (simp add: is_file_iff)
  have c1: "\<forall>sz'\<in>set (sz # rest). is_file s' (isp @ [name sz'])"
    using i1 i2 h by simp
  have c2: "\<forall>q. is_file s q \<longrightarrow> is_file s' q"
    using i2 k by blast
  have c3: "\<forall>q. q \<notin> (\<lambda>sz. isp @ [name sz]) ` set (sz # rest) \<longrightarrow> s' q = s q"
    using i3 by simp
  show ?case
    using c1 c2 c3 by blast
qed

lemma renderAll_ok:
  assumes "\<forall>obj t. render e obj t = Inr b"
    and "\<forall>sz\<in>set szs. simple_name (name sz)"
    and "is_dir s isp"
    and "\<forall>n. s (isp @ [n]) \<noteq> Some Dir"
    and "\<forall>sz\<in>set szs. \<exists>obj. createRoundedImage (path_string inp) (edge sz) pad = Inr obj"
  shows "\<exists>s'. renderAll e isp inp pad szs s = (Inr (), s')
     \<and> (\<forall>sz\<in>set szs. s' (isp @ [name sz]) = Some (File b))
     \<and> (\<forall>q. q \<notin> (\<lambda>sz. isp @ [name sz]) ` set szs \<longrightarrow> s' q = s q)"
  using assms
proof (induction szs arbitrary: s)
  case Nil
  then show ?case by (simp add: return_io_def)
next
  case (Cons sz rest)
  let ?out = "isp @ [name sz]"
  let ?s1 = "s(?out \<mapsto> File b)"
  have j: "path_join isp (name sz) = ?out"
    using Cons.prems(2) by (simp add: path_join_simple)
  obtain obj where o: "createRoundedImage (path_string inp) (edge sz) pad = Inr obj"
    using Cons.prems(5) by auto
  have w: "write_file ?out b s = (Inr (), ?s1)"
    using Cons.prems(3,4) by (simp add: write_file_ok)
  have t: "toFile e obj ?out s = (Inr (), ?s1)"
    using Cons.prems(1) w by (simp add: toFile_def)
  have p2: "\<forall>sz\<in>set rest. simple_name (name sz)"
    using Cons.prems(2) by simp
  have p3: "is_dir ?s1 isp"
    using Cons.prems(3) by (simp add: is_dir_def)
  have p4: "\<forall>n. ?s1 (isp @ [n]) \<noteq> Some Dir"
    using Cons.prems(4) by simp
  have p5: "\<forall>sz\<in>set rest. \<exists>obj. createRoundedImage (path_string inp) (edge sz) pad = Inr obj"
    using Cons.prems(5) by simp
  from Cons.IH [OF Cons.prems(1) p2 p3 p4 p5]
  obtain s' where r: "renderAll e isp inp pad rest ?s1 = (Inr (), s')"
    and a: "\<forall>sz\<in>set rest. s' (isp @ [name sz]) = Some (File b)"
    and c: "\<forall>q. q \<notin> (\<lambda>sz. isp @ [name sz]) ` set rest \<longrightarrow> s' q = ?s1 q"
    by blast
  have run: "renderAll e isp inp pad (sz # rest) s = (Inr (), s')"
    using o t r by (simp add: j bind_io_def)
  have here: "s' ?out = Some (File b)"
  proof (cases "?out \<in> (\<lambda>sz. isp @ [name sz]) ` set rest")
    case True
    then show ?thesis using a by auto
  next
    case False
    then have "s' ?out = ?s1 ?out" using c by blast
    then show ?thesis by simp
  qed
  have others: "\<forall>q. q \<notin> (\<lambda>sz. isp @ [name sz]) ` set (sz # rest) \<longrightarrow> s' q = s q"
    using c by simp
  show ?case
    using run here a others by simp
qed

lemma generateIconset_success:
  assumes "generateIconset e opts s = (Inr ip, s2)"
  shows "ip = iconsetPath_of e opts \<and> (\<forall>sz\<in>set allSizes. is_file s2 (ip @ [name sz]))"
proof -
  obtain res s1 where en: "ensure_dir (outputDirPath_of e opts) s = (res, s1)"
    by (cases "ensure_dir (outputDirPath_of e opts) s") blast
  have ok: "ensure_dir (outputDirPath_of e opts) s = (Inr (), s1)"
  proof (cases res)
    case (Inl err)
    with en generateIconset_ensure_fails [of e opts s err s1] assms show ?thesis by simp
  next
    case (Inr u)
    with en show ?thesis by simp
  qed
  have ex: "existsSync s1 (inputPath_of e opts)"
    using generateIconset_missing [OF ok] assms by auto
  have sup: "isSupportedFormat (path_string (inputPath_of e opts)) (supportedFormats (config_of e opts))"
    using generateIconset_unsupported [OF ok ex] assms by auto
  from generateIconset_supported [OF ok ex sup] assms
  obtain sA where r: "renderAll e (iconsetPath_of e opts) (inputPath_of e opts)
        (padding (config_of e opts)) allSizes sA = (Inr (), s2)"
    and i: "ip = iconsetPath_of e opts"
    by (auto simp add: bind_io_def return_io_def split: prod.splits sum.splits)
  from renderAll_files [OF r] allSizes_simple i show ?thesis
    by blast
qed

lemma generateIconset_ok:
  assumes ok: "ensure_dir (outputDirPath_of e opts) s = (Inr (), s1)"
    and ex: "existsSync s1 (inputPath_of e opts)"
    and sup: "isSupportedFormat (path_string (inputPath_of e opts)) (supportedFormats (config_of e opts))"
    and rd: "\<forall>obj t. render e obj t = Inr b"
    and ne: "iconsetPath_of e opts \<noteq> []"
    and pd: "is_dir s1 (butlast (iconsetPath_of e opts))"
    and cr: "\<forall>sz\<in>set allSizes. \<exists>obj. createRoundedImage (path_string (inputPath_of e opts))
        (edge sz) (padding (config_of e opts)) = Inr obj"
  shows "\<exists>s2. generateIconset e opts s = (Inr (iconsetPath_of e opts), s2)
     \<and> (\<forall>sz\<in>set allSizes. s2 (iconsetPath_of e opts @ [name sz]) = Some (File b))
     \<and> (\<forall>q. \<not> prefix (iconsetPath_of e opts) q \<longrightarrow> s2 q = s1 q)"
proof -
  let ?isp = "iconsetPath_of e opts"
  let ?sA = "(\<lambda>q. if prefix ?isp q then None else s1 q)(?isp \<mapsto> Dir)"
  have a1: "\<forall>sz\<in>set allSizes. simple_name (name sz)"
    using allSizes_simple by blast
  have a2: "is_dir ?sA ?isp"
    by (simp add: is_dir_def)
  have a3: "\<forall>n. ?sA (?isp @ [n]) \<noteq> Some Dir"
    by simp
  from renderAll_ok [OF rd a1 a2 a3 cr]
  obtain s2 where r: "renderAll e ?isp (inputPath_of e opts) (padding (config_of e opts)) allSizes ?sA
        = (Inr (), s2)"
    and f: "\<forall>sz\<in>set allSizes. s2 (?isp @ [name sz]) = Some (File b)"
    and o: "\<forall>q. q \<notin> (\<lambda>sz. ?isp @ [name sz]) ` set allSizes \<longrightarrow> s2 q = ?sA q"
    by blast
  have "generateIconset e opts s =
      bind_io (bind_io (remove ?isp) (\<lambda>_. mkdir ?isp))
        (\<lambda>_. bind_io (renderAll e ?isp (inputPath_of e opts) (padding (config_of e opts)) allSizes)
        (\<lambda>_. return_io ?isp)) s1"
    using generateIconset_supported [OF ok ex sup] by (simp only: bind_io_assoc)
  also have "\<dots> = bind_io (renderAll e ?isp (inputPath_of e opts) (padding (config_of e opts)) allSizes)
        (\<lambda>_. return_io ?isp) ?sA"
    using reset_dir [OF ne pd] by (rule bind_io_ok)
  also have "\<dots> = return_io ?isp s2"
    using r by (rule bind_io_ok)
  finally have run: "generateIconset e opts s = (Inr ?isp, s2)"
    by (simp add: return_io_def)
  have out: "\<forall>q. \<not> prefix ?isp q \<longrightarrow> s2 q = s1 q"
  proof (intro allI impI)
    fix q
    assume h: "\<not> prefix ?isp q"
    then have "q \<notin> (\<lambda>sz. ?isp @ [name sz]) ` set allSizes"
      by auto
    then have "s2 q = ?sA q" using o by blast
    then show "s2 q = s1 q" using h by auto
  qed
  show ?thesis
    using run f out by blast
qed

lemma ex_png: "isSupportedFormat ''/w/icon.png'' defaultFormats"
  by (simp add: isSupportedFormat_def extname_def extname_base_def toLowerCase_def
      toLowerCase_char_def defaultFormats_def)

lemma toFile_frame:
  assumes "toFile e obj out s = (res, s1)"
  shows "\<forall>q. q \<noteq> out \<longrightarrow> s1 q = s q"
  using assms
  by (auto simp add: toFile_def write_file_def split: sum.splits if_splits)

lemma renderAll_frame:
  assumes "renderAll e isp inp pad szs s = (res, s')"
    and "\<forall>sz\<in>set szs. simple_name (name sz)"
  shows "\<forall>q. q \<notin> (\<lambda>sz. isp @ [name sz]) ` set szs \<longrightarrow> s' q = s q"
  using assms
proof (induction szs arbitrary: s)
  case Nil
  then show ?case by (simp add: return_io_def)
next
  case (Cons sz rest)
  have j: "path_join isp (name sz) = isp @ [name sz]"
    using Cons.prems(2) by (simp add: path_join_simple)
  show ?case
  proof (cases "createRoundedImage (path_string inp) (edge sz) pad")
    case (Inl err)
    then have "renderAll e isp inp pad (sz # rest) s = (Inl err, s)"
      by (simp add: bind_io_def)
    then have "s' = s" using Cons.prems(1) by simp
    then show ?thesis by simp
  next
    case o: (Inr obj)
    obtain r1 s1 where t: "toFile e obj (isp @ [name sz]) s = (r1, s1)"
      by (cases "toFile e obj (isp @ [name sz]) s") blast
    note f1 = toFile_frame [OF t]
    show ?thesis
    proof (cases r1)
      case (Inl err)
      then have "renderAll e isp inp pad (sz # rest) s = (Inl err, s1)"
        using o t by (simp add: j bind_io_def)
      then have "s' = s1" using Cons.prems(1) by simp
      then show ?thesis using f1 by simp
    next
      case (Inr u)
      then have "renderAll e isp inp pad (sz # rest) s = renderAll e isp inp pad rest s1"
        using o t by (simp add: j bind_io_def)
      then have r: "renderAll e isp inp pad rest s1 = (res, s')"
        using Cons.prems(1) by simp
      have p2: "\<forall>sz\<in>set rest. simple_name (name sz)"
        using Cons.prems(2) by simp
      from Cons.IH [OF r p2] have "\<forall>q. q \<notin> (\<lambda>sz. isp @ [name sz]) ` set rest \<longrightarrow> s' q = s1 q" .
      then show ?thesis using f1 by simp
    qed
  qed
qed

text \<open>
  In a run the padding is not looked at before the filesystem is changed. Once the input
  has passed the two checks, the staging directory is removed and recreated, and only
  then is the renderer called for the first size: whatever the padding is, and whether
  the image library accepts the requests or not, an older entry of the staging directory
  is gone at the end of the call.
\<close>

lemma staging_reset_before_render:
  assumes ok: "ensure_dir (outputDirPath_of e opts) s = (Inr (), s1)"
    and ex: "existsSync s1 (inputPath_of e opts)"
    and sup: "isSupportedFormat (path_string (inputPath_of e opts)) (supportedFormats (config_of e opts))"
    and ne: "iconsetPath_of e opts \<noteq> []"
    and pd: "is_dir s1 (butlast (iconsetPath_of e opts))"
    and q: "strict_prefix (iconsetPath_of e opts) q"
      "q \<notin> (\<lambda>sz. iconsetPath_of e opts @ [name sz]) ` set allSizes"
  shows "snd (generateIconset e opts s) q = None"
proof -
  let ?isp = "iconsetPath_of e opts"
  let ?sA = "(\<lambda>q. if prefix ?isp q then None else s1 q)(?isp \<mapsto> Dir)"
  let ?loop = "renderAll e ?isp (inputPath_of e opts) (padding (config_of e opts)) allSizes"
  obtain res s2 where r: "?loop ?sA = (res, s2)"
    by (cases "?loop ?sA") blast
  have a1: "\<forall>sz\<in>set allSizes. simple_name (name sz)"
    using allSizes_simple by blast
  have "generateIconset e opts s =
      bind_io (bind_io (remove ?isp) (\<lambda>_. mkdir ?isp)) (\<lambda>_. bind_io ?loop (\<lambda>_. return_io ?isp)) s1"
    using generateIconset_supported [OF ok ex sup] by (simp only: bind_io_assoc)
  also have "\<dots> = bind_io ?loop (\<lambda>_. return_io ?isp) ?sA"
    using reset_dir [OF ne pd] by (rule bind_io_ok)
  finally have "snd (generateIconset e opts s) = s2"
    using r by (simp add: bind_io_def return_io_def split: sum.splits)
  moreover have "s2 q = ?sA q"
    using renderAll_frame [OF r a1] q(2) by blast
  moreover have "?sA q = None"
    using q(1) by (auto simp add: strict_prefix_def)
  ultimately show ?thesis by simp
qed

text \<open>
  So with padding 50 over a staging directory that holds a file from before: the first
  call of the renderer fails on the width, and the older file is gone.
\<close>

lemma ex_paths_half:
  "inputPath_of example_env half_options = [''w'', ''icon.png'']"
  "outputDirPath_of example_env half_options = [''w'', ''output'']"
  "iconsetPath_of example_env half_options = [''w'', ''output'', ''icon.iconset'']"
  "supportedFormats (config_of example_env half_options) = defaultFormats"
  "padding (config_of example_env half_options) = 50"
  by (simp_all add: cfg_defs path_defs example_env_def half_options_def)

lemma example_run_half:
  "contentSize 16 (padding (config_of example_env half_options)) \<le> 0
   \<and> fst (generateIconset example_env half_options example_fs_stale)
       = Inl (InvalidParameter ''width'')
   \<and> example_fs_stale [''w'', ''output'', ''icon.iconset'', ''old.png''] = Some (File ''old'')
   \<and> snd (generateIconset example_env half_options example_fs_stale)
         [''w'', ''output'', ''icon.iconset'', ''old.png'']
       = None"
proof -
  let ?isp = "[''w'', ''output'', ''icon.iconset'']"
  let ?sA = "(\<lambda>q. if prefix ?isp q then None else example_fs_stale q)(?isp \<mapsto> Dir)"
  have ok: "ensure_dir (outputDirPath_of example_env half_options) example_fs_stale
      = (Inr (), example_fs_stale)"
    by (simp add: ex_paths_half ensure_dir_def existsSync_def example_fs_stale_def)
  have ex: "existsSync example_fs_stale (inputPath_of example_env half_options)"
    by (simp add: ex_paths_half existsSync_def example_fs_stale_def example_fs_def)
  have sup: "isSupportedFormat (path_string (inputPath_of example_env half_options))
      (supportedFormats (config_of example_env half_options))"
    using ex_png by (simp add: ex_paths_half path_string_def)
  have ne: "iconsetPath_of example_env half_options \<noteq> []"
    by (simp add: ex_paths_half)
  have pd: "is_dir example_fs_stale (butlast (iconsetPath_of example_env half_options))"
    by (simp add: ex_paths_half is_dir_def example_fs_stale_def)
  have l: "allSizes = \<lparr>name = ''icon_16x16.png'', edge = 16\<rparr> # tl allSizes"
    by (simp add: allSizes_list)
  have w: "createRoundedImage (path_string [''w'', ''icon.png'']) 16 50 = Inl (InvalidParameter ''width'')"
    by (simp add: createRoundedImage_width contentSize_16_half)
  have "renderAll example_env ?isp [''w'', ''icon.png''] 50
          (\<lparr>name = ''icon_16x16.png'', edge = 16\<rparr> # tl allSizes) ?sA
      = (Inl (InvalidParameter ''width''), ?sA)"
    by (simp add: w bind_io_def)
  then have loop: "renderAll example_env ?isp [''w'', ''icon.png''] 50 allSizes ?sA
      = (Inl (InvalidParameter ''width''), ?sA)"
    using l by simp
  have "generateIconset example_env half_options example_fs_stale =
      bind_io (bind_io (remove ?isp) (\<lambda>_. mkdir ?isp))
        (\<lambda>_. bind_io (renderAll example_env ?isp [''w'', ''icon.png''] 50 allSizes)
                (\<lambda>_. return_io ?isp)) example_fs_stale"
    using generateIconset_supported [OF ok ex sup] by (simp only: bind_io_assoc ex_paths_half)
  also have "\<dots> = bind_io (renderAll example_env ?isp [''w'', ''icon.png''] 50 allSizes)
                (\<lambda>_. return_io ?isp) ?sA"
    using reset_dir [OF ne pd] by (simp only: ex_paths_half bind_io_ok)
  also have "\<dots> = (Inl (InvalidParameter ''width''), ?sA)"
    using loop by (rule bind_io_fail)
  finally have run: "generateIconset example_env half_options example_fs_stale
      = (Inl (InvalidParameter ''width''), ?sA)" .
  show ?thesis
    by (simp add: run ex_paths_half contentSize_16_half)
       (simp add: example_fs_stale_def)
qed

section \<open>Packaging and the plain export\<close>

lemma copyAll_ok:
  assumes "\<forall>sz\<in>set szs. simple_name (name sz) \<and> simple_name (strip_icon_prefix (name sz))"
    and "distinct (map (\<lambda>sz. strip_icon_prefix (name sz)) szs)"
    and "is_dir s pd"
    and "\<forall>sz\<in>set szs. is_file s (ip @ [name sz])"
    and "\<forall>sz\<in>set szs. \<not> prefix pd (ip @ [name sz])"
    and "\<forall>n. s (pd @ [n]) \<noteq> Some Dir"
  shows "\<exists>s'. copyAll ip pd szs s = (Inr (), s')
     \<and> (\<forall>sz\<in>set szs. s' (pd @ [strip_icon_prefix (name sz)]) = s (ip @ [name sz]))
     \<and> (\<forall>q. q \<notin> (\<lambda>sz. pd @ [strip_icon_prefix (name sz)]) ` set szs \<longrightarrow> s' q = s q)"
  using assms
proof (induction szs arbitrary: s)
  case Nil
  then show ?case by (simp add: return_io_def)
next
  case (Cons sz rest)
  let ?src = "ip @ [name sz]"
  let ?dest = "pd @ [strip_icon_prefix (name sz)]"
  have j: "path_join ip (name sz) = ?src" "path_join pd (strip_icon_prefix (name sz)) = ?dest"
    using Cons.prems(1) by (simp_all add: path_join_simple)
  obtain c where c: "s ?src = Some (File c)"
    and cp: "copyFile ?src ?dest s = (Inr (), s(?dest \<mapsto> File c))"
    using copyFile_ok [of s ?src ?dest] Cons.prems by auto
  let ?s1 = "s(?dest \<mapsto> File c)"
  have ne: "\<And>sz'. sz' \<in> set (sz # rest) \<Longrightarrow> ip @ [name sz'] \<noteq> ?dest"
    using Cons.prems(5) by (metis prefixI)
  have d1: "is_dir ?s1 pd"
    using Cons.prems(3) by (simp add: is_dir_def)
  have f1: "\<forall>sz'\<in>set rest. is_file ?s1 (ip @ [name sz'])"
    using Cons.prems(4) ne by (simp add: is_file_iff)
  have n1: "\<forall>n. ?s1 (pd @ [n]) \<noteq> Some Dir"
    using Cons.prems(6) by simp
  have p1: "\<forall>sz\<in>set rest. simple_name (name sz) \<and> simple_name (strip_icon_prefix (name sz))"
    using Cons.prems(1) by simp
  have p2: "distinct (map (\<lambda>sz. strip_icon_prefix (name sz)) rest)"
    using Cons.prems(2) by simp
  have p5: "\<forall>sz\<in>set rest. \<not> prefix pd (ip @ [name sz])"
    using Cons.prems(5) by simp
  from Cons.IH [OF p1 p2 d1 f1 p5 n1]
  obtain s' where r: "copyAll ip pd rest ?s1 = (Inr (), s')"
    and a: "\<forall>sz'\<in>set rest. s' (pd @ [strip_icon_prefix (name sz')]) = ?s1 (ip @ [name sz'])"
    and b: "\<forall>q. q \<notin> (\<lambda>sz. pd @ [strip_icon_prefix (name sz)]) ` set rest \<longrightarrow> s' q = ?s1 q"
    by blast
  have run: "copyAll ip pd (sz # rest) s = (Inr (), s')"
    using cp r by (simp add: j bind_io_def)
  have fresh: "?dest \<notin> (\<lambda>sz. pd @ [strip_icon_prefix (name sz)]) ` set rest"
    using Cons.prems(2) by auto
  have here: "s' ?dest = s ?src"
    using b fresh c by simp
  have there: "\<forall>sz'\<in>set rest. s' (pd @ [strip_icon_prefix (name sz')]) = s (ip @ [name sz'])"
  proof
    fix sz'
    assume m: "sz' \<in> set rest"
    then have "ip @ [name sz'] \<noteq> ?dest"
      using ne [of sz'] by simp
    then have eq: "?s1 (ip @ [name sz']) = s (ip @ [name sz'])"
      by (rule fun_upd_other)
    from a m have "s' (pd @ [strip_icon_prefix (name sz')]) = ?s1 (ip @ [name sz'])"
      by blast
    from this eq show "s' (pd @ [strip_icon_prefix (name sz')]) = s (ip @ [name sz'])"
      by (rule trans)
  qed
  have others: "\<forall>q. q \<notin> (\<lambda>sz. pd @ [strip_icon_prefix (name sz)]) ` set (sz # rest) \<longrightarrow> s' q = s q"
    using b by simp
  show ?case
    using run here there others by simp
qed

lemma exportPlain_start:
  assumes "is_dir s od"
  shows "bind_io (remove (od @ [''icons''])) (\<lambda>_. mkdir (od @ [''icons''])) s =
     (Inr (), (\<lambda>q. if prefix (od @ [''icons'']) q then None else s q)(od @ [''icons''] \<mapsto> Dir))"
  using assms
  by (auto simp add: bind_io_def remove_def mkdir_def existsSync_def is_dir_def)

lemma exportPlain_eq:
  "exportPlain od ip s =
     bind_io (bind_io (remove (od @ [''icons''])) (\<lambda>_. mkdir (od @ [''icons''])))
       (\<lambda>_. copyAll ip (od @ [''icons'']) allSizes) s"
  by (simp add: exportPlain_def Let_def path_resolve_icons bind_io_def split: prod.splits sum.splits)

lemma exportPlain_ok:
  assumes d: "is_dir s od"
    and np: "\<not> prefix (od @ [''icons'']) ip"
    and fl: "\<forall>sz\<in>set allSizes. is_file s (ip @ [name sz])"
  shows "\<exists>s'. exportPlain od ip s = (Inr (), s')
     \<and> s' (od @ [''icons'']) = Some Dir
     \<and> (\<forall>sz\<in>set allSizes. s' (od @ [''icons''] @ [strip_icon_prefix (name sz)]) = s (ip @ [name sz]))
     \<and> (\<forall>q. strict_prefix (od @ [''icons'']) q \<and> s' q \<noteq> None \<longrightarrow>
           q \<in> (\<lambda>sz. od @ [''icons''] @ [strip_icon_prefix (name sz)]) ` set allSizes)
     \<and> (\<forall>q. \<not> prefix (od @ [''icons'']) q \<longrightarrow> s' q = s q)"
proof -
  let ?pd = "od @ [''icons'']"
  let ?sA = "(\<lambda>q. if prefix ?pd q then None else s q)(?pd \<mapsto> Dir)"
  have src: "\<forall>sz\<in>set allSizes. \<not> prefix ?pd (ip @ [name sz])"
  proof
    fix sz
    assume "sz \<in> set allSizes"
    then have "name sz \<noteq> ''icons''" by (rule allSizes_not_icons)
    then show "\<not> prefix ?pd (ip @ [name sz])" using np by auto
  qed
  have a1: "\<forall>sz\<in>set allSizes. simple_name (name sz) \<and> simple_name (strip_icon_prefix (name sz))"
    using allSizes_simple allSizes_strip_simple by blast
  have a3: "is_dir ?sA ?pd"
    by (simp add: is_dir_def)
  have a4: "\<forall>sz\<in>set allSizes. is_file ?sA (ip @ [name sz])"
    using fl src by (auto simp add: is_file_iff)
  have a6: "\<forall>n. ?sA (?pd @ [n]) \<noteq> Some Dir"
    by simp
  from copyAll_ok [OF a1 allSizes_strip_distinct a3 a4 src a6]
  obtain s' where r: "copyAll ip ?pd allSizes ?sA = (Inr (), s')"
    and a: "\<forall>sz\<in>set allSizes. s' (?pd @ [strip_icon_prefix (name sz)]) = ?sA (ip @ [name sz])"
    and b: "\<forall>q. q \<notin> (\<lambda>sz. ?pd @ [strip_icon_prefix (name sz)]) ` set allSizes \<longrightarrow> s' q = ?sA q"
    by blast
  have run: "exportPlain od ip s = (Inr (), s')"
    using exportPlain_start [OF d] r by (simp add: exportPlain_eq bind_io_def)
  have "?pd \<notin> (\<lambda>sz. ?pd @ [strip_icon_prefix (name sz)]) ` set allSizes"
    by auto
  then have "s' ?pd = ?sA ?pd"
    using b by blast
  then have c1: "s' ?pd = Some Dir"
    by simp
  have c2: "\<forall>sz\<in>set allSizes. s' (?pd @ [strip_icon_prefix (name sz)]) = s (ip @ [name sz])"
    using a src by auto
  have c3: "\<forall>q. strict_prefix ?pd q \<and> s' q \<noteq> None \<longrightarrow>
           q \<in> (\<lambda>sz. ?pd @ [strip_icon_prefix (name sz)]) ` set allSizes"
  proof (intro allI impI)
    fix q
    assume h: "strict_prefix ?pd q \<and> s' q \<noteq> None"
    show "q \<in> (\<lambda>sz. ?pd @ [strip_icon_prefix (name sz)]) ` set allSizes"
    proof (rule ccontr)
      assume "q \<notin> (\<lambda>sz. ?pd @ [strip_icon_prefix (name sz)]) ` set allSizes"
      then have "s' q = ?sA q" using b by blast
      moreover have "?sA q = None" using h by (auto simp add: strict_prefix_def)
      ultimately show False using h by simp
    qed
  qed
  have c4: "\<forall>q. \<not> prefix ?pd q \<longrightarrow> s' q = s q"
  proof (intro allI impI)
    fix q
    assume h: "\<not> prefix ?pd q"
    then have "q \<notin> (\<lambda>sz. ?pd @ [strip_icon_prefix (name sz)]) ` set allSizes"
      by auto
    then have "s' q = ?sA q" using b by blast
    then show "s' q = s q" using h by auto
  qed
  show ?thesis
    using run c1 c2 c3 c4 by simp
qed

lemma copyAll_first_missing:
  assumes "s (path_join ip (name sz)) = None" and "path_join ip (name sz) \<noteq> []"
  shows "copyAll ip pd (sz # rest) s = (Inl (FsError ''ENOENT'' (path_join ip (name sz))), s)"
  using assms by (simp add: Let_def bind_io_def copyFile_def)

lemma exportPlain_fails:
  assumes d: "is_dir s od" and p: "prefix (od @ [''icons'']) ip"
  shows "exportPlain od ip s =
     (Inl (FsError ''ENOENT'' (ip @ [''icon_16x16.png''])),
      (\<lambda>q. if prefix (od @ [''icons'']) q then None else s q)(od @ [''icons''] \<mapsto> Dir))"
proof -
  let ?pd = "od @ [''icons'']"
  let ?sA = "(\<lambda>q. if prefix ?pd q then None else s q)(?pd \<mapsto> Dir)"
  let ?first = "\<lparr>name = ''icon_16x16.png'', edge = 16\<rparr>"
  have j: "path_join ip ''icon_16x16.png'' = ip @ [''icon_16x16.png'']"
    by (simp add: path_join_simple simple_name_def)
  have "?sA (ip @ [''icon_16x16.png'']) = None"
    using p by auto
  then have n: "?sA (path_join ip (name ?first)) = None"
    by (simp add: j)
  have l: "allSizes = ?first # tl allSizes"
    by (simp add: allSizes_list)
  have "copyAll ip ?pd (?first # tl allSizes) ?sA =
      (Inl (FsError ''ENOENT'' (path_join ip (name ?first))), ?sA)"
    using n by (rule copyAll_first_missing) (simp add: j)
  then have "copyAll ip ?pd allSizes ?sA = (Inl (FsError ''ENOENT'' (ip @ [''icon_16x16.png''])), ?sA)"
    using l j by simp
  then show ?thesis
    using exportPlain_start [OF d] by (simp add: exportPlain_eq bind_io_def)
qed

lemma generateIcns_eq:
  "generateIcns e opts s =
     (case ensure_dir (outputDirPath_of e opts) s of
        (Inl err, s1) \<Rightarrow> (Inl err, s1)
      | (Inr _, s1) \<Rightarrow>
          (case generateIconset e opts s1 of
             (Inl err, s2) \<Rightarrow> (Inl err, s2)
           | (Inr ip, s2) \<Rightarrow>
               (case execSync e (iconutil_command ip (outputPath_of e opts)) s2 of
                  (Inl err, s3) \<Rightarrow> (Inl err, s3)
                | (Inr _, s3) \<Rightarrow>
                    (case exportPlain (outputDirPath_of e opts) ip s3 of
                       (Inl err, s4) \<Rightarrow> (Inl err, s4)
                     | (Inr _, s4) \<Rightarrow> (Inr (outputPath_of e opts), s4)))))"
  by (simp add: generateIcns_def Let_def bind_io_def catch_io_def return_io_def throw_io_def
      outputDirPath_of_def outputPath_of_def config_of_def split: prod.splits sum.splits)

lemma generateIcns_ensure_fails:
  assumes "ensure_dir (outputDirPath_of e opts) s = (Inl err, s1)"
  shows "generateIcns e opts s = (Inl err, s1)"
  using assms by (simp add: generateIcns_eq)

lemma generateIcns_gen_fails:
  assumes "ensure_dir (outputDirPath_of e opts) s = (Inr (), s1)"
    and "generateIconset e opts s1 = (Inl err, s2)"
  shows "generateIcns e opts s = (Inl err, s2)"
  using assms by (simp add: generateIcns_eq)

lemma generateIcns_pack_fails:
  assumes "ensure_dir (outputDirPath_of e opts) s = (Inr (), s1)"
    and "generateIconset e opts s1 = (Inr ip, s2)"
    and "execSync e (iconutil_command ip (outputPath_of e opts)) s2 = (Inl err, s3)"
  shows "generateIcns e opts s = (Inl err, s3)"
  using assms by (simp add: generateIcns_eq)

lemma generateIcns_export_fails:
  assumes "ensure_dir (outputDirPath_of e opts) s = (Inr (), s1)"
    and "generateIconset e opts s1 = (Inr ip, s2)"
    and "execSync e (iconutil_command ip (outputPath_of e opts)) s2 = (Inr (), s3)"
    and "exportPlain (outputDirPath_of e opts) ip s3 = (Inl err, s4)"
  shows "generateIcns e opts s = (Inl err, s4)"
  using assms by (simp add: generateIcns_eq)

lemma generateIcns_all_ok:
  assumes "ensure_dir (outputDirPath_of e opts) s = (Inr (), s1)"
    and "generateIconset e opts s1 = (Inr ip, s2)"
    and "execSync e (iconutil_command ip (outputPath_of e opts)) s2 = (Inr (), s3)"
    and "exportPlain (outputDirPath_of e opts) ip s3 = (Inr (), s4)"
  shows "generateIcns e opts s = (Inr (outputPath_of e opts), s4)"
  using assms by (simp add: generateIcns_eq)

lemma generateIcns_returned:
  assumes "generateIcns e opts s = (Inr p, s4)"
  shows "p = outputPath_of e opts
     \<and> (\<exists>s1 ip s2 s3. ensure_dir (outputDirPath_of e opts) s = (Inr (), s1)
          \<and> generateIconset e opts s1 = (Inr ip, s2)
          \<and> execSync e (iconutil_command ip (outputPath_of e opts)) s2 = (Inr (), s3)
          \<and> exportPlain (outputDirPath_of e opts) ip s3 = (Inr (), s4))"
  using assms by (auto simp add: generateIcns_eq split: prod.splits sum.splits)

lemma ex_paths_run:
  "inputPath_of example_env no_options = [''w'', ''icon.png'']"
  "inputPath_of example_env nested_options = [''w'', ''icon.png'']"
  "outputDirPath_of example_env no_options = [''w'', ''output'']"
  "outputDirPath_of example_env nested_options = [''w'', ''output'']"
  "iconsetPath_of example_env no_options = [''w'', ''output'', ''icon.iconset'']"
  "iconsetPath_of example_env nested_options = [''w'', ''output'', ''icons'', ''icon.iconset'']"
  "outputPath_of example_env no_options = [''w'', ''output'', ''icon.icns'']"
  "outputPath_of example_env nested_options = [''w'', ''output'', ''icon.icns'']"
  "supportedFormats (config_of example_env no_options) = defaultFormats"
  "supportedFormats (config_of example_env nested_options) = defaultFormats"
  by (simp_all add: cfg_defs path_defs example_env_def nested_options_def)

lemma ex_padding_run:
  "padding (config_of example_env no_options) = 35 / 4"
  "padding (config_of example_env nested_options) = 35 / 4"
  by (simp_all add: cfg_defs nested_options_def)

lemma example_generateIconset:
  assumes "inputPath_of example_env opts = [''w'', ''icon.png'']"
    and "supportedFormats (config_of example_env opts) = defaultFormats"
    and "existsSync s1 (outputDirPath_of example_env opts)"
    and "s1 [''w'', ''icon.png''] \<noteq> None"
    and "iconsetPath_of example_env opts \<noteq> []"
    and "is_dir s1 (butlast (iconsetPath_of example_env opts))"
    and "padding (config_of example_env opts) = 35 / 4"
  shows "\<exists>s2. generateIconset example_env opts s1 = (Inr (iconsetPath_of example_env opts), s2)
     \<and> (\<forall>sz\<in>set allSizes. s2 (iconsetPath_of example_env opts @ [name sz]) = Some (File ''PNG''))
     \<and> (\<forall>q. \<not> prefix (iconsetPath_of example_env opts) q \<longrightarrow> s2 q = s1 q)"
proof -
  have ok: "ensure_dir (outputDirPath_of example_env opts) s1 = (Inr (), s1)"
    using assms(3) by (simp add: ensure_dir_def)
  have ex: "existsSync s1 (inputPath_of example_env opts)"
    using assms(4) by (simp add: assms(1) existsSync_def)
  have sup: "isSupportedFormat (path_string (inputPath_of example_env opts))
      (supportedFormats (config_of example_env opts))"
    using ex_png by (simp add: assms(1,2) path_string_def)
  have rd: "\<forall>obj t. render example_env obj t = Inr ''PNG''"
    by (simp add: example_env_def example_render_def)
  have cr: "\<forall>sz\<in>set allSizes. \<exists>obj. createRoundedImage
      (path_string (inputPath_of example_env opts)) (edge sz)
      (padding (config_of example_env opts)) = Inr obj"
    unfolding assms(7) by (rule createRoundedImage_default_ok)
  from generateIconset_ok [OF ok ex sup rd assms(5) assms(6) cr] show ?thesis .
qed

lemma example_packaging:
  assumes "s2 [''w'', ''output''] = Some Dir" and "s2 [''w'', ''output'', ''icon.icns''] = None"
  shows "execSync example_env cmd s2 = (Inr (), s2([''w'', ''output'', ''icon.icns''] \<mapsto> File ''ICNS''))"
proof -
  have "write_file [''w'', ''output'', ''icon.icns''] ''ICNS'' s2 =
      (Inr (), s2([''w'', ''output'', ''icon.icns''] \<mapsto> File ''ICNS''))"
    using assms by (simp add: write_file_ok is_dir_def)
  then show ?thesis
    by (simp add: example_env_def example_execSync_def)
qed

lemma example_ensure_default:
  "ensure_dir (outputDirPath_of example_env no_options) example_fs
     = (Inr (), example_fs([''w'', ''output''] \<mapsto> Dir))"
  by (simp add: ex_paths_run ex_ensure)

lemma example_ensure_rerun:
  "ensure_dir (outputDirPath_of example_env nested_options) example_fs_rerun = (Inr (), example_fs_rerun)"
  by (simp add: ex_paths_run ensure_dir_def existsSync_def example_fs_rerun_def)

lemma example_run_nested:
  "fst (generateIconset example_env nested_options example_fs_rerun)
     = Inr [''w'', ''output'', ''icons'', ''icon.iconset'']
   \<and> fst (execSync example_env
            (iconutil_command [''w'', ''output'', ''icons'', ''icon.iconset'']
               [''w'', ''output'', ''icon.icns''])
            (snd (generateIconset example_env nested_options example_fs_rerun)))
       = Inr ()
   \<and> fst (generateIcns example_env nested_options example_fs_rerun)
       = Inl (FsError ''ENOENT'' [''w'', ''output'', ''icons'', ''icon.iconset'', ''icon_16x16.png''])
   \<and> snd (generateIcns example_env nested_options example_fs_rerun)
         [''w'', ''output'', ''icons'', ''16x16.png'']
       = None
   \<and> snd (generateIcns example_env nested_options example_fs_rerun)
         [''w'', ''output'', ''icons'', ''icon.iconset'', ''icon_16x16.png'']
       = None"
proof -
  let ?s1 = "example_fs_rerun"
  let ?ip = "[''w'', ''output'', ''icons'', ''icon.iconset'']"
  let ?cmd = "iconutil_command ?ip [''w'', ''output'', ''icon.icns'']"
  have a3: "existsSync ?s1 (outputDirPath_of example_env nested_options)"
    by (simp add: ex_paths_run existsSync_def example_fs_rerun_def)
  have a4: "?s1 [''w'', ''icon.png''] \<noteq> None"
    by (simp add: example_fs_rerun_def example_fs_def)
  have a5: "iconsetPath_of example_env nested_options \<noteq> []"
    by (simp add: ex_paths_run)
  have a6: "is_dir ?s1 (butlast (iconsetPath_of example_env nested_options))"
    by (simp add: ex_paths_run is_dir_def example_fs_rerun_def)
  from example_generateIconset [OF ex_paths_run(2) ex_paths_run(10) a3 a4 a5 a6 ex_padding_run(2)]
  obtain s2 where g: "generateIconset example_env nested_options ?s1 = (Inr ?ip, s2)"
    and o: "\<forall>q. \<not> prefix ?ip q \<longrightarrow> s2 q = ?s1 q"
    by (auto simp add: ex_paths_run)
  let ?s3 = "s2([''w'', ''output'', ''icon.icns''] \<mapsto> File ''ICNS'')"
  have b1: "s2 [''w'', ''output''] = Some Dir"
    using o by (simp add: example_fs_rerun_def)
  have b2: "s2 [''w'', ''output'', ''icon.icns''] = None"
    using o by (simp add: example_fs_rerun_def example_fs_def)
  have x: "execSync example_env ?cmd s2 = (Inr (), ?s3)"
    using b1 b2 by (rule example_packaging)
  have d: "is_dir ?s3 [''w'', ''output'']"
    using b1 by (simp add: is_dir_def)
  have p: "prefix ([''w'', ''output''] @ [''icons'']) ?ip"
    by simp
  note f = exportPlain_fails [OF d p]
  have x': "execSync example_env (iconutil_command ?ip (outputPath_of example_env nested_options)) s2
      = (Inr (), ?s3)"
    using x by (simp only: ex_paths_run)
  have f': "exportPlain (outputDirPath_of example_env nested_options) ?ip ?s3 =
      (Inl (FsError ''ENOENT'' (?ip @ [''icon_16x16.png''])),
       (\<lambda>q. if prefix ([''w'', ''output''] @ [''icons'']) q then None else ?s3 q)
         ([''w'', ''output''] @ [''icons''] \<mapsto> Dir))"
    using f by (simp only: ex_paths_run)
  note run = generateIcns_export_fails [OF example_ensure_rerun g x' f']
  show ?thesis
    using g x by (simp add: run)
qed

text \<open>
  Claim C8, as stated: after the packaging step succeeds, \<^verbatim>\<open>generateIcns\<close> resets the plain
  export directory \<^verbatim>\<open><outputDir>/icons\<close> and copies every one of the 14 staged files into
  it. This fails when the staging directory lies inside the plain export directory. In the
  second run of the example, with the staging directory
  \<^verbatim>\<open>/w/output/icons/icon.iconset\<close>, the iconset is generated and packaging succeeds; the
  reset of \<^verbatim>\<open>/w/output/icons\<close> then deletes the staged files, the first copy fails with
  \<^verbatim>\<open>ENOENT\<close>, and neither the staged \<^verbatim>\<open>icon_16x16.png\<close> nor an exported \<^verbatim>\<open>16x16.png\<close>
  is left.
\<close>

theorem export_nested_staging_counterexample:
  "fst (generateIconset example_env nested_options example_fs_rerun)
     = Inr [''w'', ''output'', ''icons'', ''icon.iconset'']
   \<and> fst (execSync example_env
            (iconutil_command [''w'', ''output'', ''icons'', ''icon.iconset'']
               [''w'', ''output'', ''icon.icns''])
            (snd (generateIconset example_env nested_options example_fs_rerun)))
       = Inr ()
   \<and> fst (generateIcns example_env nested_options example_fs_rerun)
       = Inl (FsError ''ENOENT'' [''w'', ''output'', ''icons'', ''icon.iconset'', ''icon_16x16.png''])
   \<and> snd (generateIcns example_env nested_options example_fs_rerun)
         [''w'', ''output'', ''icons'', ''16x16.png'']
       = None
   \<and> snd (generateIcns example_env nested_options example_fs_rerun)
         [''w'', ''output'', ''icons'', ''icon.iconset'', ''icon_16x16.png'']
       = None"
  by (rule example_run_nested)

text \<open>
  Claim C8, amended. An error of the creation of the output directory, of
  \<^verbatim>\<open>generateIconset\<close> or of the packaging command is rethrown as it is, and \<^verbatim>\<open>generateIcns\<close> returns a path only when iconset
  generation, packaging and the export all succeeded; the path is then the resolved output
  path. When packaging has succeeded and left the output directory and the 14 staged files
  in place, and the staging directory is not \<^verbatim>\<open><outputDir>/icons\<close> or inside it,
  \<^verbatim>\<open>generateIcns\<close> removes and recreates the plain export directory, copies each of the 14
  staged files into it under its name without the prefix \<^verbatim>\<open>icon_\<close>, and returns the
  output path: afterwards the plain export directory contains exactly these 14 files, each
  equal to the staged file, and nothing outside it has changed.
\<close>

theorem generateIcns_export:
  "(\<forall>err s1. ensure_dir (outputDirPath_of e opts) s = (Inl err, s1) \<longrightarrow>
        generateIcns e opts s = (Inl err, s1))
   \<and> (\<forall>s1 err s2. ensure_dir (outputDirPath_of e opts) s = (Inr (), s1)
          \<and> generateIconset e opts s1 = (Inl err, s2) \<longrightarrow>
          generateIcns e opts s = (Inl err, s2))
   \<and> (\<forall>s1 ip s2 err s3. ensure_dir (outputDirPath_of e opts) s = (Inr (), s1)
          \<and> generateIconset e opts s1 = (Inr ip, s2)
          \<and> execSync e (iconutil_command ip (outputPath_of e opts)) s2 = (Inl err, s3) \<longrightarrow>
          generateIcns e opts s = (Inl err, s3))
   \<and> (\<forall>p s4. generateIcns e opts s = (Inr p, s4) \<longrightarrow>
          p = outputPath_of e opts
          \<and> (\<exists>s1 ip s2 s3. ensure_dir (outputDirPath_of e opts) s = (Inr (), s1)
               \<and> generateIconset e opts s1 = (Inr ip, s2)
               \<and> execSync e (iconutil_command ip (outputPath_of e opts)) s2 = (Inr (), s3)
               \<and> exportPlain (outputDirPath_of e opts) ip s3 = (Inr (), s4)))
   \<and> (\<forall>s1 ip s2 s3. ensure_dir (outputDirPath_of e opts) s = (Inr (), s1)
          \<and> generateIconset e opts s1 = (Inr ip, s2)
          \<and> execSync e (iconutil_command ip (outputPath_of e opts)) s2 = (Inr (), s3)
          \<and> is_dir s3 (outputDirPath_of e opts)
          \<and> (\<forall>sz\<in>set allSizes. s3 (ip @ [name sz]) = s2 (ip @ [name sz]))
          \<and> \<not> prefix (plainDir_of e opts) ip \<longrightarrow>
          (\<exists>s4. generateIcns e opts s = (Inr (outputPath_of e opts), s4)
             \<and> s4 (plainDir_of e opts) = Some Dir
             \<and> (\<forall>sz\<in>set allSizes.
                   is_file s4 (plainDir_of e opts @ [strip_icon_prefix (name sz)])
                   \<and> s4 (plainDir_of e opts @ [strip_icon_prefix (name sz)]) = s2 (ip @ [name sz]))
             \<and> (\<forall>q. strict_prefix (plainDir_of e opts) q \<and> s4 q \<noteq> None \<longrightarrow>
                   q \<in> (\<lambda>sz. plainDir_of e opts @ [strip_icon_prefix (name sz)]) ` set allSizes)
             \<and> (\<forall>q. \<not> prefix (plainDir_of e opts) q \<longrightarrow> s4 q = s3 q)))"
proof (intro conjI allI impI)
  fix err s1
  assume "ensure_dir (outputDirPath_of e opts) s = (Inl err, s1)"
  then show "generateIcns e opts s = (Inl err, s1)"
    by (rule generateIcns_ensure_fails)
next
  fix s1 err s2
  assume "ensure_dir (outputDirPath_of e opts) s = (Inr (), s1)
      \<and> generateIconset e opts s1 = (Inl err, s2)"
  then show "generateIcns e opts s = (Inl err, s2)"
    using generateIcns_gen_fails by blast
next
  fix s1 ip s2 err s3
  assume "ensure_dir (outputDirPath_of e opts) s = (Inr (), s1)
      \<and> generateIconset e opts s1 = (Inr ip, s2)
      \<and> execSync e (iconutil_command ip (outputPath_of e opts)) s2 = (Inl err, s3)"
  then show "generateIcns e opts s = (Inl err, s3)"
    using generateIcns_pack_fails by blast
next
  fix p s4
  assume r: "generateIcns e opts s = (Inr p, s4)"
  from generateIcns_returned [OF r] show "p = outputPath_of e opts"
    by blast
  from generateIcns_returned [OF r]
  show "\<exists>s1 ip s2 s3. ensure_dir (outputDirPath_of e opts) s = (Inr (), s1)
      \<and> generateIconset e opts s1 = (Inr ip, s2)
      \<and> execSync e (iconutil_command ip (outputPath_of e opts)) s2 = (Inr (), s3)
      \<and> exportPlain (outputDirPath_of e opts) ip s3 = (Inr (), s4)"
    by blast
next
  fix s1 ip s2 s3
  assume h: "ensure_dir (outputDirPath_of e opts) s = (Inr (), s1)
      \<and> generateIconset e opts s1 = (Inr ip, s2)
      \<and> execSync e (iconutil_command ip (outputPath_of e opts)) s2 = (Inr (), s3)
      \<and> is_dir s3 (outputDirPath_of e opts)
      \<and> (\<forall>sz\<in>set allSizes. s3 (ip @ [name sz]) = s2 (ip @ [name sz]))
      \<and> \<not> prefix (plainDir_of e opts) ip"
  let ?od = "outputDirPath_of e opts"
  have ens: "ensure_dir ?od s = (Inr (), s1)"
    and g: "generateIconset e opts s1 = (Inr ip, s2)"
    and x: "execSync e (iconutil_command ip (outputPath_of e opts)) s2 = (Inr (), s3)"
    and d: "is_dir s3 ?od"
    and same: "\<forall>sz\<in>set allSizes. s3 (ip @ [name sz]) = s2 (ip @ [name sz])"
    and np: "\<not> prefix (?od @ [''icons'']) ip"
    using h by (simp_all add: plainDir_of_eq)
  have staged: "\<forall>sz\<in>set allSizes. is_file s2 (ip @ [name sz])"
    using generateIconset_success [OF g] by blast
  have fl: "\<forall>sz\<in>set allSizes. is_file s3 (ip @ [name sz])"
    using staged same by (simp add: is_file_iff)
  from exportPlain_ok [OF d np fl]
  obtain s4 where ex: "exportPlain ?od ip s3 = (Inr (), s4)"
    and c1: "s4 (?od @ [''icons'']) = Some Dir"
    and c2: "\<forall>sz\<in>set allSizes. s4 (?od @ [''icons''] @ [strip_icon_prefix (name sz)]) = s3 (ip @ [name sz])"
    and c3: "\<forall>q. strict_prefix (?od @ [''icons'']) q \<and> s4 q \<noteq> None \<longrightarrow>
           q \<in> (\<lambda>sz. ?od @ [''icons''] @ [strip_icon_prefix (name sz)]) ` set allSizes"
    and c4: "\<forall>q. \<not> prefix (?od @ [''icons'']) q \<longrightarrow> s4 q = s3 q"
    by blast
  have run: "generateIcns e opts s = (Inr (outputPath_of e opts), s4)"
    using ens g x ex by (rule generateIcns_all_ok)
  have c2': "\<forall>sz\<in>set allSizes.
       is_file s4 ((?od @ [''icons'']) @ [strip_icon_prefix (name sz)])
       \<and> s4 ((?od @ [''icons'']) @ [strip_icon_prefix (name sz)]) = s2 (ip @ [name sz])"
    using c2 same fl by (simp add: is_file_iff)
  have c3': "\<forall>q. strict_prefix (?od @ [''icons'']) q \<and> s4 q \<noteq> None \<longrightarrow>
           q \<in> (\<lambda>sz. (?od @ [''icons'']) @ [strip_icon_prefix (name sz)]) ` set allSizes"
    using c3 by simp
  show "\<exists>s4. generateIcns e opts s = (Inr (outputPath_of e opts), s4)
       \<and> s4 (plainDir_of e opts) = Some Dir
       \<and> (\<forall>sz\<in>set allSizes.
             is_file s4 (plainDir_of e opts @ [strip_icon_prefix (name sz)])
             \<and> s4 (plainDir_of e opts @ [strip_icon_prefix (name sz)]) = s2 (ip @ [name sz]))
       \<and> (\<forall>q. strict_prefix (plainDir_of e opts) q \<and> s4 q \<noteq> None \<longrightarrow>
             q \<in> (\<lambda>sz. plainDir_of e opts @ [strip_icon_prefix (name sz)]) ` set allSizes)
       \<and> (\<forall>q. \<not> prefix (plainDir_of e opts) q \<longrightarrow> s4 q = s3 q)"
    unfolding plainDir_of_eq using run c1 c2' c3' c4 by blast
qed

theorem generateIcns_export_witness:
  "ensure_dir (outputDirPath_of example_env no_options) example_fs
     = (Inr (), example_fs([''w'', ''output''] \<mapsto> Dir))
   \<and> fst (generateIcns example_env no_options example_fs) = Inr [''w'', ''output'', ''icon.icns'']
   \<and> snd (generateIcns example_env no_options example_fs) [''w'', ''output'', ''icons'']
       = Some Dir
   \<and> snd (generateIcns example_env no_options example_fs) [''w'', ''output'', ''icons'', ''16x16.png'']
       = Some (File ''PNG'')
   \<and> snd (generateIcns example_env no_options example_fs)
         [''w'', ''output'', ''icon.iconset'', ''icon_16x16.png'']
       = Some (File ''PNG'')"
proof -
  let ?s1 = "example_fs([''w'', ''output''] \<mapsto> Dir)"
  let ?ip = "[''w'', ''output'', ''icon.iconset'']"
  let ?first = "\<lparr>name = ''icon_16x16.png'', edge = 16\<rparr>"
  note ens = example_ensure_default
  have a3: "existsSync ?s1 (outputDirPath_of example_env no_options)"
    by (simp add: ex_paths_run existsSync_def)
  have a4: "?s1 [''w'', ''icon.png''] \<noteq> None"
    by (simp add: example_fs_def)
  have a5: "iconsetPath_of example_env no_options \<noteq> []"
    by (simp add: ex_paths_run)
  have a6: "is_dir ?s1 (butlast (iconsetPath_of example_env no_options))"
    by (simp add: ex_paths_run is_dir_def)
  from example_generateIconset [OF ex_paths_run(1) ex_paths_run(9) a3 a4 a5 a6 ex_padding_run(1)]
  obtain s2 where g: "generateIconset example_env no_options ?s1 = (Inr ?ip, s2)"
    and f: "\<forall>sz\<in>set allSizes. s2 (?ip @ [name sz]) = Some (File ''PNG'')"
    and o: "\<forall>q. \<not> prefix ?ip q \<longrightarrow> s2 q = ?s1 q"
    by (auto simp add: ex_paths_run)
  have b1: "s2 [''w'', ''output''] = Some Dir"
    using o by simp
  have b2: "s2 [''w'', ''output'', ''icon.icns''] = None"
    using o by (simp add: example_fs_def)
  let ?s3 = "s2([''w'', ''output'', ''icon.icns''] \<mapsto> File ''ICNS'')"
  have x: "execSync example_env (iconutil_command ?ip (outputPath_of example_env no_options)) s2
      = (Inr (), ?s3)"
    using b1 b2 by (rule example_packaging)
  have d: "is_dir ?s3 (outputDirPath_of example_env no_options)"
    using b1 by (simp add: is_dir_def ex_paths_run)
  have same: "\<forall>sz\<in>set allSizes. ?s3 (?ip @ [name sz]) = s2 (?ip @ [name sz])"
    by simp
  have np: "\<not> prefix (plainDir_of example_env no_options) ?ip"
    by (simp add: plainDir_of_eq ex_paths_run)
  note part = generateIcns_export [THEN conjunct2, THEN conjunct2, THEN conjunct2, THEN conjunct2,
      rule_format, of example_env no_options example_fs ?s1 ?ip s2 ?s3]
  have hyp: "ensure_dir (outputDirPath_of example_env no_options) example_fs = (Inr (), ?s1)
      \<and> generateIconset example_env no_options ?s1 = (Inr ?ip, s2)
      \<and> execSync example_env (iconutil_command ?ip (outputPath_of example_env no_options)) s2
          = (Inr (), ?s3)
      \<and> is_dir ?s3 (outputDirPath_of example_env no_options)
      \<and> (\<forall>sz\<in>set allSizes. ?s3 (?ip @ [name sz]) = s2 (?ip @ [name sz]))
      \<and> \<not> prefix (plainDir_of example_env no_options) ?ip"
    using ens g x d same np by (intro conjI)
  from part [OF hyp]
  obtain s4 where run: "generateIcns example_env no_options example_fs
        = (Inr (outputPath_of example_env no_options), s4)"
    and c1: "s4 (plainDir_of example_env no_options) = Some Dir"
    and c2: "\<forall>sz\<in>set allSizes.
        s4 (plainDir_of example_env no_options @ [strip_icon_prefix (name sz)]) = s2 (?ip @ [name sz])"
    and c4: "\<forall>q. \<not> prefix (plainDir_of example_env no_options) q \<longrightarrow> s4 q = ?s3 q"
    by blast
  have m: "?first \<in> set allSizes"
    by (simp add: allSizes_list)
  have a: "s4 [''w'', ''output'', ''icons'', ''16x16.png''] = Some (File ''PNG'')"
    using c2 f m by (fastforce simp add: plainDir_of_eq ex_paths_run strip_icon_prefix_def)
  have "s4 [''w'', ''output'', ''icon.iconset'', ''icon_16x16.png'']
      = ?s3 [''w'', ''output'', ''icon.iconset'', ''icon_16x16.png'']"
    using c4 by (simp add: plainDir_of_eq ex_paths_run)
  also have "\<dots> = s2 (?ip @ [name ?first])"
    by simp
  also have "\<dots> = Some (File ''PNG'')"
    using f m by blast
  finally have b: "s4 [''w'', ''output'', ''icon.iconset'', ''icon_16x16.png''] = Some (File ''PNG'')" .
  have c: "s4 [''w'', ''output'', ''icons''] = Some Dir"
    using c1 by (simp add: plainDir_of_eq ex_paths_run)
  show ?thesis
    using ens run a b c by (simp add: ex_paths_run)
qed

section \<open>The query for the supported formats\<close>

lemma getSupportedFormats_eq:
  assumes "store_ok st"
  shows "getSupportedFormats st =
     (next_addr st,
      st\<lparr>arrays := (arrays st)(next_addr st \<mapsto> defaultFormats), next_addr := Suc (next_addr st)\<rparr>)"
  using assms by (simp add: getSupportedFormats_def array_spread_def store_ok_def or_default_def)

lemma store_ok_after_call:
  assumes "store_ok st"
  shows "store_ok (snd (getSupportedFormats st))"
  using assms by (auto simp add: getSupportedFormats_eq store_ok_def)

lemma store_ok_after_mutation:
  assumes "store_ok st" and "a \<noteq> supportedFormats_ref"
  shows "store_ok (mutate_array a f st)"
  using assms by (simp add: mutate_array_def store_ok_def)

lemma initial_store_ok: "store_ok initial_store"
  by (simp add: store_ok_def initial_store_def supportedFormats_ref_def)

text \<open>
  Claim C10. \<^verbatim>\<open>getSupportedFormats\<close> returns a new array whose elements are those of the
  default allowlist. Whatever is then done to the returned array, the array of the default
  configuration keeps its elements, and a later call again returns a new array with the
  elements of the default allowlist.
\<close>

theorem getSupportedFormats_fresh_copy:
  assumes "store_ok st"
  shows "\<exists>a st1. getSupportedFormats st = (a, st1)
     \<and> a \<noteq> supportedFormats_ref
     \<and> arrays st1 a = Some (supportedFormats (defaultConfig c))
     \<and> arrays st1 a = arrays st supportedFormats_ref
     \<and> arrays st1 supportedFormats_ref = arrays st supportedFormats_ref
     \<and> (\<forall>f. arrays (mutate_array a f st1) supportedFormats_ref = arrays st supportedFormats_ref
            \<and> arrays (mutate_array a f st1) a = Some (f defaultFormats)
            \<and> (\<exists>a2 st2. getSupportedFormats (mutate_array a f st1) = (a2, st2)
                  \<and> a2 \<noteq> a \<and> a2 \<noteq> supportedFormats_ref
                  \<and> arrays st2 a2 = Some defaultFormats))"
proof -
  let ?a = "next_addr st"
  let ?st1 = "st\<lparr>arrays := (arrays st)(?a \<mapsto> defaultFormats), next_addr := Suc ?a\<rparr>"
  have r: "getSupportedFormats st = (?a, ?st1)"
    using assms by (rule getSupportedFormats_eq)
  have d: "arrays st supportedFormats_ref = Some defaultFormats" and n: "?a \<noteq> supportedFormats_ref"
    using assms by (auto simp add: store_ok_def)
  have ok1: "store_ok ?st1"
    using store_ok_after_call [OF assms] by (simp add: r)
  have later: "\<And>f. \<exists>a2 st2. getSupportedFormats (mutate_array ?a f ?st1) = (a2, st2)
                  \<and> a2 \<noteq> ?a \<and> a2 \<noteq> supportedFormats_ref
                  \<and> arrays st2 a2 = Some defaultFormats"
  proof -
    fix f
    have ok2: "store_ok (mutate_array ?a f ?st1)"
      using ok1 n by (rule store_ok_after_mutation)
    have "next_addr (mutate_array ?a f ?st1) = Suc ?a"
      by (simp add: mutate_array_def)
    then show "\<exists>a2 st2. getSupportedFormats (mutate_array ?a f ?st1) = (a2, st2)
                  \<and> a2 \<noteq> ?a \<and> a2 \<noteq> supportedFormats_ref
                  \<and> arrays st2 a2 = Some defaultFormats"
      using getSupportedFormats_eq [OF ok2] ok2 by (auto simp add: store_ok_def)
  qed
  have m: "\<And>f. arrays (mutate_array ?a f ?st1) supportedFormats_ref = arrays st supportedFormats_ref
            \<and> arrays (mutate_array ?a f ?st1) ?a = Some (f defaultFormats)"
    using n by (simp add: mutate_array_def)
  show ?thesis
    using r d n m later by (simp add: defaultConfig_def)
qed

theorem getSupportedFormats_fresh_copy_witness:
  "store_ok initial_store
   \<and> fst (getSupportedFormats initial_store) = 1
   \<and> arrays (snd (getSupportedFormats initial_store)) 1 = Some defaultFormats
   \<and> arrays (mutate_array 1 tl (snd (getSupportedFormats initial_store))) supportedFormats_ref
       = Some defaultFormats
   \<and> arrays (mutate_array 1 tl (snd (getSupportedFormats initial_store))) 1
       = Some (tl defaultFormats)"
proof -
  have n: "next_addr initial_store = 1" and d: "arrays initial_store supportedFormats_ref = Some defaultFormats"
    by (simp_all add: initial_store_def)
  have e: "fst (getSupportedFormats initial_store) = 1"
    using getSupportedFormats_eq [OF initial_store_ok] n by simp
  from getSupportedFormats_fresh_copy [OF initial_store_ok, of "[''w'']"]
  obtain a st1 where r: "getSupportedFormats initial_store = (a, st1)"
    and c: "arrays st1 a = Some (supportedFormats (defaultConfig [''w'']))"
    and m: "\<forall>f. arrays (mutate_array a f st1) supportedFormats_ref = arrays initial_store supportedFormats_ref
            \<and> arrays (mutate_array a f st1) a = Some (f defaultFormats)"
    by blast
  have a: "a = 1"
    using e r by simp
  show ?thesis
    using initial_store_ok r c m a d by (simp add: defaultConfig_def)
qed

end
